theory Spec2Isabelle
  imports Main
begin

section \<open>exif\_batch\_set: the pure checks\<close>

text \<open>
  The program is one C++ translation unit, \<^verbatim>\<open>exif_batch_set.cpp\<close>. Strings are
  \<^verbatim>\<open>std::string\<close>, modelled as \<^typ>\<open>string\<close> (a list of 8-bit characters); a
  \<^verbatim>\<open>std::filesystem::path\<close> is modelled by its generic-format pathname, again a
  \<^typ>\<open>string\<close>.
\<close>

type_synonym path = string

subsection \<open>IsValidExifDateTime\<close>

text \<open>The lambda \<^verbatim>\<open>is_digit\<close>: \<^verbatim>\<open>c >= '0' && c <= '9'\<close> (codes 48 to 57).\<close>

definition is_digit :: "char \<Rightarrow> bool" where
  "is_digit c = ((48::nat) \<le> of_char c \<and> of_char c \<le> (57::nat))"

text \<open>
  The size test comes first, so every index read afterwards is within the string.
\<close>

definition IsValidExifDateTime :: "string \<Rightarrow> bool" where
  "IsValidExifDateTime s =
     (if length s \<noteq> 19 then False
      else if \<not> list_all (\<lambda>i. is_digit (s ! i))
                  [0, 1, 2, 3, 5, 6, 8, 9, 11, 12, 14, 15, 17, 18] then False
      else (s ! 4 = CHR '':'' \<and> s ! 7 = CHR '':'' \<and> s ! 10 = CHR '' '' \<and>
            s ! 13 = CHR '':'' \<and> s ! 16 = CHR '':''))"

text \<open>
  The pattern as the specification words it: 19 characters, a colon at 4, 7, 13 and 16,
  a space at 10, a decimal digit everywhere else.
\<close>

definition matches_exif_pattern :: "string \<Rightarrow> bool" where
  "matches_exif_pattern s =
     (length s = 19 \<and>
      (\<forall>i<19. if i \<in> {4, 7, 13, 16} then s ! i = CHR '':''
              else if i = 10 then s ! i = CHR '' ''
              else is_digit (s ! i)))"

subsection \<open>ToLower and IsJpegPath\<close>

text \<open>
  \<^verbatim>\<open>std::tolower\<close> on an \<^verbatim>\<open>unsigned char\<close>; the program never calls
  \<^verbatim>\<open>setlocale\<close>, so the "C" locale applies: the letters A to Z (65 to 90) move to
  a to z, every other character stays.
\<close>

definition tolower :: "char \<Rightarrow> char" where
  "tolower c =
     (if (65::nat) \<le> of_char c \<and> of_char c \<le> (90::nat)
      then char_of (of_char c + (32::nat)) else c)"

definition ToLower :: "string \<Rightarrow> string" where
  "ToLower s = map tolower s"

text \<open>
  \<^verbatim>\<open>path::filename\<close> and \<^verbatim>\<open>path::extension\<close>, as the C++ standard defines them
  on the generic format: the filename is what follows the last directory separator; the
  extension starts at the rightmost period of the filename, and is empty when the
  filename has no period, when its only period is its first character, and for the
  special names dot and dot-dot.
\<close>

definition is_separator :: "char \<Rightarrow> bool" where
  "is_separator c = (c = CHR ''/'')"

definition filename :: "path \<Rightarrow> string" where
  "filename p = rev (takeWhile (\<lambda>c. \<not> is_separator c) (rev p))"

definition extension :: "path \<Rightarrow> string" where
  "extension p =
     (let f = filename p;
          after_dot = takeWhile (\<lambda>c. c \<noteq> CHR ''.'') (rev f);
          upto_dot = dropWhile (\<lambda>c. c \<noteq> CHR ''.'') (rev f)
      in if f = ''.'' \<or> f = ''..'' then []
         else (case upto_dot of
                 [] \<Rightarrow> []
               | d # stem \<Rightarrow> if stem = [] then [] else d # rev after_dot))"

definition IsJpegPath :: "path \<Rightarrow> bool" where
  "IsJpegPath p = (let ext = ToLower (extension p) in (ext = ''.jpg'' \<or> ext = ''.jpeg''))"

text \<open>\<^verbatim>\<open>backup_path = file; backup_path += ".bak"\<close>: plain concatenation.\<close>

definition backup_path_of :: "path \<Rightarrow> path" where
  "backup_path_of file = file @ ''.bak''"

section \<open>The file system, the console and the external collaborators\<close>

text \<open>
  A file-system node is a regular file with its bytes, a directory, or something else
  (a device, a socket). The state the program acts on is the map from paths to nodes,
  the lines written to \<^verbatim>\<open>std::cout\<close> and \<^verbatim>\<open>std::cerr\<close> in order, and a log of
  the operations performed on candidate files. The log is not in the source: it records
  which library call was made on which path, so that "no mutation is attempted" can be
  stated.
\<close>

datatype node = Regular string | Directory | Other

text \<open>
  The two handlers of \<^verbatim>\<open>UpdateExifInPlace\<close> name the exception classes the try block
  can raise: \<^verbatim>\<open>Exiv2::Error\<close> (the codec's one exception class) and
  \<^verbatim>\<open>std::exception\<close> (which \<^verbatim>\<open>std::filesystem::filesystem_error\<close> derives from).
  Each carries its \<^verbatim>\<open>what()\<close> text.
\<close>

datatype exn = Exiv2_Error string | Std_exception string

fun what :: "exn \<Rightarrow> string" where
  "what (Exiv2_Error m) = m"
| "what (Std_exception m) = m"

datatype op =
    Op_exists path
  | Op_open_source path
  | Op_open_destination path
  | Op_write_backup path
  | Op_image_open path
  | Op_read_metadata path
  | Op_write_metadata path

text \<open>One constructor per output statement of the source.\<close>

datatype message =
    Out_DRY path
  | Out_OK path
  | Err_backup_exists path
  | Err_backup_failed path string
  | Err_open_failed path
  | Err_exception path string
  | Err_unknown_option string
  | Err_usage
  | Err_invalid_datetime
  | Err_folder path
  | Out_done nat nat nat

record world =
  files :: "path \<rightharpoonup> node"
  console :: "message list"
  ops :: "op list"

definition print :: "message \<Rightarrow> world \<Rightarrow> world" where
  "print m w = w\<lparr>console := console w @ [m]\<rparr>"

definition log_op :: "op \<Rightarrow> world \<Rightarrow> world" where
  "log_op x w = w\<lparr>ops := ops w @ [x]\<rparr>"

text \<open>The bytes of a regular file; nothing for a missing path or another kind of node.\<close>

definition content :: "world \<Rightarrow> path \<Rightarrow> string option" where
  "content w p = (case files w p of Some (Regular bytes) \<Rightarrow> Some bytes | _ \<Rightarrow> None)"

text \<open>
  Exif metadata is a mapping from tag keys to values. A directory entry carries its path
  and what \<^verbatim>\<open>is_regular_file()\<close> answers for it.
\<close>

type_synonym exif_data = "string \<rightharpoonup> string"

record directory_entry =
  entry_path :: path
  is_regular_file :: bool

text \<open>
  A directory iterator walks the live directory. What it does, one increment after the
  other, is a finite list of steps: it comes to a path, or it raises
  \<^verbatim>\<open>filesystem_error\<close> (a directory it cannot open or read). A path on the list is
  yielded only if it exists in the file system at the moment the iterator comes to it, so
  a file created during the run is seen when the list holds its path after the point of
  its creation, and not otherwise: the C++ standard leaves open which of the two happens.
\<close>

datatype iter_step = Next_entry path | Iterator_error string

text \<open>
  What the operating system and the Exiv2 library decide is a parameter of the model:
  \<^item> \<open>status_error p\<close>: the message of the \<^verbatim>\<open>filesystem_error\<close> that a status query
    on \<open>p\<close> raises, if it raises;
  \<^item> \<open>can_open_source\<close>, \<open>can_open_destination\<close>: whether the operating system lets
    \<^verbatim>\<open>std::ifstream\<close> and \<^verbatim>\<open>std::ofstream\<close> open the path;
  \<^item> \<open>write_capacity p\<close>: how many bytes the device accepts for \<open>p\<close> before writes fail
    (\<open>None\<close>: no limit);
  \<^item> \<open>device_input p\<close>: the bytes read from \<open>p\<close> when it is neither a regular file nor
    a directory;
  \<^item> \<open>image_open\<close>: \<^verbatim>\<open>Exiv2::ImageFactory::open\<close>, which raises or returns a handle
    (\<open>True\<close>) or a null pointer (\<open>False\<close>);
  \<^item> \<open>read_metadata\<close>: \<^verbatim>\<open>readMetadata\<close> followed by \<^verbatim>\<open>exifData\<close>;
  \<^item> \<open>write_metadata\<close>: \<^verbatim>\<open>writeMetadata\<close>, which leaves new bytes at the path
    (or leaves it alone) and may raise;
  \<^item> \<open>directory_iterator\<close>, \<open>recursive_directory_iterator\<close>: the steps of the iterator
    over a folder, in order.
\<close>

record env =
  status_error :: "path \<Rightarrow> string option"
  can_open_source :: "path \<Rightarrow> bool"
  can_open_destination :: "path \<Rightarrow> bool"
  write_capacity :: "path \<Rightarrow> nat option"
  device_input :: "path \<Rightarrow> string"
  image_open :: "path \<Rightarrow> string option \<Rightarrow> exn + bool"
  read_metadata :: "path \<Rightarrow> string option \<Rightarrow> exn + exif_data"
  write_metadata :: "path \<Rightarrow> string option \<Rightarrow> exif_data \<Rightarrow> string option \<times> exn option"
  directory_iterator :: "path \<Rightarrow> iter_step list"
  recursive_directory_iterator :: "path \<Rightarrow> iter_step list"

text \<open>
  \<^verbatim>\<open>fs::exists(p)\<close> without an error code raises when the status query fails;
  \<^verbatim>\<open>fs::exists(p, ec)\<close> and \<^verbatim>\<open>fs::is_directory(p, ec)\<close> answer \<open>False\<close> then.
\<close>

definition fs_exists :: "env \<Rightarrow> path \<Rightarrow> world \<Rightarrow> (exn + bool) \<times> world" where
  "fs_exists e p w =
     (case status_error e p of
        Some m \<Rightarrow> (Inl (Std_exception m), log_op (Op_exists p) w)
      | None \<Rightarrow> (Inr (files w p \<noteq> None), log_op (Op_exists p) w))"

definition fs_exists_ec :: "env \<Rightarrow> path \<Rightarrow> world \<Rightarrow> bool" where
  "fs_exists_ec e p w = (status_error e p = None \<and> files w p \<noteq> None)"

definition fs_is_directory_ec :: "env \<Rightarrow> path \<Rightarrow> world \<Rightarrow> bool" where
  "fs_is_directory_ec e p w = (status_error e p = None \<and> files w p = Some Directory)"

section \<open>CopyFileBinary\<close>

text \<open>
  \<^verbatim>\<open>std::ifstream in(src)\<close> opens when the path exists and the operating system lets
  it be read; a directory opens too and yields no bytes. \<^verbatim>\<open>std::ofstream out(dst, trunc)\<close>
  opens when the operating system allows it and the path is not a directory: a regular
  file is emptied, a missing one is created empty, a device is left as it is.

  \<^verbatim>\<open>out << in.rdbuf()\<close> then inserts the source's bytes into the stream, which buffers
  them. The standard sets \<^verbatim>\<open>failbit\<close> only when not a single character was inserted,
  and \<^verbatim>\<open>out.good()\<close> is tested right away, before anything flushes or closes the
  stream: the test fails for an empty source and passes for every other one. The buffered
  bytes reach the device when \<open>out\<close> is destroyed on return, as far as the device accepts
  them, and nothing looks at the outcome of that.

  The result is \<open>Inl\<close> with the text stored through \<^verbatim>\<open>err\<close>, or \<open>Inr ()\<close> for
  \<^verbatim>\<open>true\<close>.
\<close>

definition source_bytes :: "env \<Rightarrow> world \<Rightarrow> path \<Rightarrow> string" where
  "source_bytes e w src =
     (case files w src of
        Some (Regular b) \<Rightarrow> b
      | Some Other \<Rightarrow> device_input e src
      | Some Directory \<Rightarrow> []
      | None \<Rightarrow> [])"

definition store :: "path \<Rightarrow> string \<Rightarrow> world \<Rightarrow> world" where
  "store dst b w =
     (case files w dst of
        Some Other \<Rightarrow> w
      | _ \<Rightarrow> w\<lparr>files := (files w)(dst \<mapsto> Regular b)\<rparr>)"

definition CopyFileBinary :: "env \<Rightarrow> path \<Rightarrow> path \<Rightarrow> world \<Rightarrow> (string + unit) \<times> world" where
  "CopyFileBinary e src dst w =
     (let w1 = log_op (Op_open_source src) w in
      if \<not> (can_open_source e src \<and> files w1 src \<noteq> None)
      then (Inl ''failed to open source for backup'', w1)
      else
        let w2 = log_op (Op_open_destination dst) w1 in
        if \<not> (can_open_destination e dst \<and> files w2 dst \<noteq> Some Directory)
        then (Inl ''failed to open destination for backup'', w2)
        else
          let w3 = store dst [] w2;
              bytes = source_bytes e w3 src;
              w4 = log_op (Op_write_backup dst) w3
          in if bytes = []
             then (Inl ''failed while writing backup'', w4)
             else
               let flushed = (case write_capacity e dst of
                                None \<Rightarrow> bytes
                              | Some n \<Rightarrow> take n bytes)
               in (Inr (), store dst flushed w4))"

section \<open>UpdateExifInPlace\<close>

text \<open>
  The body of the \<^verbatim>\<open>if (make_backup)\<close> block. Its result is \<open>Inl x\<close> when \<open>x\<close> was
  raised, \<open>Inr (Some b)\<close> when the function returned \<open>b\<close> from inside the block, and
  \<open>Inr None\<close> when control leaves the block and goes on to the codec.
\<close>

definition UpdateExifInPlace_backup :: "env \<Rightarrow> path \<Rightarrow> world \<Rightarrow> (exn + bool option) \<times> world" where
  "UpdateExifInPlace_backup e file w =
     (let backup_path = backup_path_of file in
      case fs_exists e backup_path w of
        (Inl x, w1) \<Rightarrow> (Inl x, w1)
      | (Inr True, w1) \<Rightarrow> (Inr (Some False), print (Err_backup_exists backup_path) w1)
      | (Inr False, w1) \<Rightarrow>
          (case CopyFileBinary e file backup_path w1 of
             (Inl err, w2) \<Rightarrow> (Inr (Some False), print (Err_backup_failed file err) w2)
           | (Inr u, w2) \<Rightarrow> (Inr None, w2)))"

text \<open>
  From \<^verbatim>\<open>ImageFactory::open\<close> to the final \<^verbatim>\<open>return true\<close>. The three assignments
  store \<open>dt\<close> under the three tag keys; \<^verbatim>\<open>setExifData\<close> hands the image its own
  metadata back. \<^verbatim>\<open>writeMetadata\<close> changes the file at \<open>file\<close> and nothing else.
\<close>

definition UpdateExifInPlace_mutate :: "env \<Rightarrow> path \<Rightarrow> string \<Rightarrow> world \<Rightarrow> (exn + bool) \<times> world" where
  "UpdateExifInPlace_mutate e file dt w =
     (let w1 = log_op (Op_image_open file) w in
      case image_open e file (content w1 file) of
        Inl x \<Rightarrow> (Inl x, w1)
      | Inr False \<Rightarrow> (Inr False, print (Err_open_failed file) w1)
      | Inr True \<Rightarrow>
          (let w2 = log_op (Op_read_metadata file) w1 in
           case read_metadata e file (content w2 file) of
             Inl x \<Rightarrow> (Inl x, w2)
           | Inr exif0 \<Rightarrow>
               (let exif = exif0(''Exif.Photo.DateTimeOriginal'' \<mapsto> dt,
                                 ''Exif.Photo.DateTimeDigitized'' \<mapsto> dt,
                                 ''Exif.Image.DateTime'' \<mapsto> dt);
                    w3 = log_op (Op_write_metadata file) w2
                in case write_metadata e file (content w3 file) exif of
                     (new, raised) \<Rightarrow>
                       (let w4 = (case new of
                                    None \<Rightarrow> w3
                                  | Some b \<Rightarrow> w3\<lparr>files := (files w3)(file \<mapsto> Regular b)\<rparr>)
                        in case raised of
                             Some x \<Rightarrow> (Inl x, w4)
                           | None \<Rightarrow> (Inr True, print (Out_OK file) w4)))))"

text \<open>The try block: an exception raised inside leaves it at once.\<close>

definition UpdateExifInPlace_try ::
  "env \<Rightarrow> path \<Rightarrow> string \<Rightarrow> bool \<Rightarrow> bool \<Rightarrow> world \<Rightarrow> (exn + bool) \<times> world" where
  "UpdateExifInPlace_try e file dt dry_run make_backup w =
     (if dry_run then (Inr True, print (Out_DRY file) w)
      else if make_backup then
        (case UpdateExifInPlace_backup e file w of
           (Inl x, w1) \<Rightarrow> (Inl x, w1)
         | (Inr (Some b), w1) \<Rightarrow> (Inr b, w1)
         | (Inr None, w1) \<Rightarrow> UpdateExifInPlace_mutate e file dt w1)
      else UpdateExifInPlace_mutate e file dt w)"

text \<open>The two handlers: each prints the error line and returns \<^verbatim>\<open>false\<close>.\<close>

definition UpdateExifInPlace ::
  "env \<Rightarrow> path \<Rightarrow> string \<Rightarrow> bool \<Rightarrow> bool \<Rightarrow> world \<Rightarrow> bool \<times> world" where
  "UpdateExifInPlace e file dt dry_run make_backup w =
     (case UpdateExifInPlace_try e file dt dry_run make_backup w of
        (Inr b, w1) \<Rightarrow> (b, w1)
      | (Inl (Exiv2_Error m), w1) \<Rightarrow> (False, print (Err_exception file m) w1)
      | (Inl (Std_exception m), w1) \<Rightarrow> (False, print (Err_exception file m) w1))"

section \<open>main\<close>

text \<open>
  The three counters of \<^verbatim>\<open>main\<close>. They are \<^verbatim>\<open>std::size_t\<close>; a run would need
  \<open>2^64\<close> directory entries to wrap one, so they are natural numbers here.
\<close>

record counters =
  total :: nat
  ok :: nat
  skipped :: nat

text \<open>The lambda \<^verbatim>\<open>process_entry\<close>, with the locals it captures as arguments.\<close>

definition process_entry ::
  "env \<Rightarrow> string \<Rightarrow> bool \<Rightarrow> bool \<Rightarrow> directory_entry \<Rightarrow> counters \<times> world \<Rightarrow> counters \<times> world" where
  "process_entry e dt dry_run make_backup entry cw =
     (case cw of (c, w) \<Rightarrow>
        if \<not> is_regular_file entry then (c, w)
        else
          let p = entry_path entry in
          if \<not> IsJpegPath p then (c\<lparr>skipped := skipped c + 1\<rparr>, w)
          else
            let c1 = c\<lparr>total := total c + 1\<rparr> in
            case UpdateExifInPlace e p dt dry_run make_backup w of
              (True, w1) \<Rightarrow> (c1\<lparr>ok := ok c1 + 1\<rparr>, w1)
            | (False, w1) \<Rightarrow> (c1, w1))"

text \<open>
  What either range-based \<^verbatim>\<open>for\<close> loop does to a given sequence of entries: the
  lambda is called on each in turn.
\<close>

fun process_entries ::
  "env \<Rightarrow> string \<Rightarrow> bool \<Rightarrow> bool \<Rightarrow> directory_entry list \<Rightarrow> counters \<times> world \<Rightarrow> counters \<times> world" where
  "process_entries e dt dry_run make_backup [] cw = cw"
| "process_entries e dt dry_run make_backup (entry # rest) cw =
     process_entries e dt dry_run make_backup rest (process_entry e dt dry_run make_backup entry cw)"

text \<open>
  The option loop of \<^verbatim>\<open>main\<close> over \<^verbatim>\<open>argv[3..]\<close>, on the triple
  \<open>(recursive, dry_run, make_backup)\<close>; \<open>Inl opt\<close> is the early return at an unknown
  option.
\<close>

fun parse_options :: "string list \<Rightarrow> bool \<times> bool \<times> bool \<Rightarrow> string + bool \<times> bool \<times> bool" where
  "parse_options [] flags = Inr flags"
| "parse_options (opt # rest) (recursive, dry_run, make_backup) =
     (if opt = ''--recursive'' then parse_options rest (True, dry_run, make_backup)
      else if opt = ''--dry-run'' then parse_options rest (recursive, True, make_backup)
      else if opt = ''--no-backup'' then parse_options rest (recursive, dry_run, False)
      else Inl opt)"

text \<open>
  The entry the iterator yields for a path: \<^verbatim>\<open>is_regular_file()\<close> answers by the
  node the path holds at that moment.
\<close>

definition entry_at :: "world \<Rightarrow> path \<Rightarrow> directory_entry" where
  "entry_at w p =
     \<lparr>entry_path = p,
      is_regular_file = (case files w p of Some (Regular b) \<Rightarrow> True | _ \<Rightarrow> False)\<rparr>"

text \<open>
  The range-based \<^verbatim>\<open>for\<close> loop over a live iterator. Neither loop of \<^verbatim>\<open>main\<close> is
  inside a \<^verbatim>\<open>try\<close>, and both the iterator and \<^verbatim>\<open>e.is_regular_file()\<close> are the
  overloads that raise (the latter when the status query on the entry's path does): the
  first component of the result is the exception that leaves the loop uncaught, if one
  does, with the counters and the world of that moment.
\<close>

fun for_each_entry ::
  "env \<Rightarrow> string \<Rightarrow> bool \<Rightarrow> bool \<Rightarrow> iter_step list \<Rightarrow> counters \<times> world \<Rightarrow>
     exn option \<times> counters \<times> world" where
  "for_each_entry e dt dry_run make_backup [] (c, w) = (None, c, w)"
| "for_each_entry e dt dry_run make_backup (Iterator_error m # rest) (c, w) =
     (Some (Std_exception m), c, w)"
| "for_each_entry e dt dry_run make_backup (Next_entry p # rest) (c, w) =
     (if files w p = None then for_each_entry e dt dry_run make_backup rest (c, w)
      else
        case status_error e p of
          Some m \<Rightarrow> (Some (Std_exception m), c, w)
        | None \<Rightarrow>
            for_each_entry e dt dry_run make_backup rest
              (process_entry e dt dry_run make_backup (entry_at w p) (c, w)))"

text \<open>The part of \<^verbatim>\<open>main\<close> from the counters' declaration to the end of the loops.\<close>

definition traverse ::
  "env \<Rightarrow> path \<Rightarrow> string \<Rightarrow> bool \<times> bool \<times> bool \<Rightarrow> world \<Rightarrow> exn option \<times> counters \<times> world" where
  "traverse e folder dt flags w =
     (case flags of (recursive, dry_run, make_backup) \<Rightarrow>
        for_each_entry e dt dry_run make_backup
          (if recursive then recursive_directory_iterator e folder
           else directory_iterator e folder)
          (\<lparr>total = 0, ok = 0, skipped = 0\<rparr>, w))"

text \<open>
  \<^verbatim>\<open>main\<close> on \<open>argv\<close> (\<open>argc\<close> is its length; \<open>argv ! 0\<close> is the program's name).
  The result is \<open>Inr\<close> of the exit status \<^verbatim>\<open>main\<close> returns, or \<open>Inl\<close> of the exception
  that leaves \<^verbatim>\<open>main\<close> uncaught: the process then ends in \<^verbatim>\<open>std::terminate\<close>, without
  the summary line and without any status of \<^verbatim>\<open>main\<close>.
\<close>

definition main :: "env \<Rightarrow> string list \<Rightarrow> world \<Rightarrow> (exn + int) \<times> world" where
  "main e argv w =
     (if length argv < 3 then (Inr 2, print Err_usage w)
      else
        let folder = argv ! 1; dt = argv ! 2 in
        case parse_options (drop 3 argv) (False, False, True) of
          Inl opt \<Rightarrow> (Inr 2, print Err_usage (print (Err_unknown_option opt) w))
        | Inr flags \<Rightarrow>
            if \<not> IsValidExifDateTime dt then (Inr 2, print Err_invalid_datetime w)
            else if \<not> fs_exists_ec e folder w \<or> \<not> fs_is_directory_ec e folder w
            then (Inr 2, print (Err_folder folder) w)
            else
              (case traverse e folder dt flags w of
                 (Some x, c, w1) \<Rightarrow> (Inl x, w1)
               | (None, c, w1) \<Rightarrow>
                   (Inr (if ok c = total c then 0 else 1),
                    print (Out_done (ok c) (total c) (skipped c)) w1)))"

section \<open>Vocabulary of the properties\<close>

text \<open>
  A candidate is an entry that reaches \<^verbatim>\<open>UpdateExifInPlace\<close>: a regular file whose
  path passes \<^verbatim>\<open>IsJpegPath\<close>. A type-skipped entry is a regular file that does not.
\<close>

definition is_candidate :: "directory_entry \<Rightarrow> bool" where
  "is_candidate entry = (is_regular_file entry \<and> IsJpegPath (entry_path entry))"

definition is_type_skipped :: "directory_entry \<Rightarrow> bool" where
  "is_type_skipped entry = (is_regular_file entry \<and> \<not> IsJpegPath (entry_path entry))"

text \<open>
  The entries a loop has handed to \<^verbatim>\<open>process_entry\<close> by the time it ends or is left by
  an exception, in order; and the paths on an iterator's list of steps.
\<close>

fun traversed_entries ::
  "env \<Rightarrow> string \<Rightarrow> bool \<Rightarrow> bool \<Rightarrow> iter_step list \<Rightarrow> counters \<times> world \<Rightarrow> directory_entry list" where
  "traversed_entries e dt dry_run make_backup [] (c, w) = []"
| "traversed_entries e dt dry_run make_backup (Iterator_error m # rest) (c, w) = []"
| "traversed_entries e dt dry_run make_backup (Next_entry p # rest) (c, w) =
     (if files w p = None then traversed_entries e dt dry_run make_backup rest (c, w)
      else
        case status_error e p of
          Some m \<Rightarrow> []
        | None \<Rightarrow>
            entry_at w p #
            traversed_entries e dt dry_run make_backup rest
              (process_entry e dt dry_run make_backup (entry_at w p) (c, w)))"

definition traversed ::
  "env \<Rightarrow> path \<Rightarrow> string \<Rightarrow> bool \<times> bool \<times> bool \<Rightarrow> world \<Rightarrow> directory_entry list" where
  "traversed e folder dt flags w =
     (case flags of (recursive, dry_run, make_backup) \<Rightarrow>
        traversed_entries e dt dry_run make_backup
          (if recursive then recursive_directory_iterator e folder
           else directory_iterator e folder)
          (\<lparr>total = 0, ok = 0, skipped = 0\<rparr>, w))"

text \<open>
  Whether a path holds a regular file; and how the file map of a run relates to the one
  it started from: what was there is still there and is a regular file exactly if it was
  one, and what is new is a regular file at the backup path of a path that passes the
  type filter.
\<close>

fun is_regular :: "node option \<Rightarrow> bool" where
  "is_regular (Some (Regular b)) = True"
| "is_regular (Some Directory) = False"
| "is_regular (Some Other) = False"
| "is_regular None = False"

definition grown_from :: "(path \<rightharpoonup> node) \<Rightarrow> (path \<rightharpoonup> node) \<Rightarrow> bool" where
  "grown_from f0 f =
     (\<forall>p. (f0 p \<noteq> None \<longrightarrow> f p \<noteq> None \<and> is_regular (f p) = is_regular (f0 p)) \<and>
          (f0 p = None \<and> f p \<noteq> None \<longrightarrow>
             is_regular (f p) \<and> (\<exists>q. IsJpegPath q \<and> p = backup_path_of q)))"

fun listed_paths :: "iter_step list \<Rightarrow> path list" where
  "listed_paths [] = []"
| "listed_paths (Next_entry p # rest) = p # listed_paths rest"
| "listed_paths (Iterator_error m # rest) = listed_paths rest"

text \<open>
  Matching without regard to letter case, character by character: two characters are
  the same when they are equal or when one is an upper-case letter (A to Z) and the other
  is its lower-case form, 32 codes above.
\<close>

definition is_upper :: "char \<Rightarrow> bool" where
  "is_upper c = ((65::nat) \<le> of_char c \<and> of_char c \<le> (90::nat))"

definition same_ignoring_case :: "char \<Rightarrow> char \<Rightarrow> bool" where
  "same_ignoring_case c d =
     (c = d \<or> (is_upper c \<and> of_char d = of_char c + (32::nat)) \<or>
      (is_upper d \<and> of_char c = of_char d + (32::nat)))"

definition matches_ignoring_case :: "string \<Rightarrow> string \<Rightarrow> bool" where
  "matches_ignoring_case s t = list_all2 same_ignoring_case s t"

text \<open>The operations of the log that belong to the metadata codec.\<close>

fun is_codec_op :: "op \<Rightarrow> bool" where
  "is_codec_op (Op_image_open p) = True"
| "is_codec_op (Op_read_metadata p) = True"
| "is_codec_op (Op_write_metadata p) = True"
| "is_codec_op (Op_exists p) = False"
| "is_codec_op (Op_open_source p) = False"
| "is_codec_op (Op_open_destination p) = False"
| "is_codec_op (Op_write_backup p) = False"

text \<open>The console lines that report the outcome of one file.\<close>

fun reports :: "path \<Rightarrow> message \<Rightarrow> bool" where
  "reports file (Out_DRY p) = (p = file)"
| "reports file (Out_OK p) = (p = file)"
| "reports file (Err_backup_exists p) = (p = backup_path_of file)"
| "reports file (Err_backup_failed p cause) = (p = file)"
| "reports file (Err_open_failed p) = (p = file)"
| "reports file (Err_exception p cause) = (p = file)"
| "reports file (Err_unknown_option opt) = False"
| "reports file Err_usage = False"
| "reports file Err_invalid_datetime = False"
| "reports file (Err_folder p) = False"
| "reports file (Out_done a b c) = False"

text \<open>
  The usage and validation errors of the command line, as the specification lists them:
  fewer than two positional arguments, an unknown flag, an invalid timestamp, a root
  that is missing or not a directory. \<open>flags_of\<close> reads the three flags off a list of
  known options.
\<close>

definition known_option :: "string \<Rightarrow> bool" where
  "known_option opt = (opt = ''--recursive'' \<or> opt = ''--dry-run'' \<or> opt = ''--no-backup'')"

definition usage_error :: "env \<Rightarrow> string list \<Rightarrow> world \<Rightarrow> bool" where
  "usage_error e argv w =
     (length argv < 3 \<or> \<not> list_all known_option (drop 3 argv) \<or>
      \<not> IsValidExifDateTime (argv ! 2) \<or> \<not> fs_is_directory_ec e (argv ! 1) w)"

definition flags_of :: "string list \<Rightarrow> bool \<times> bool \<times> bool" where
  "flags_of opts =
     (''--recursive'' \<in> set opts, ''--dry-run'' \<in> set opts, ''--no-backup'' \<notin> set opts)"

text \<open>
  The exception the codec raises, if any, when \<^verbatim>\<open>UpdateExifInPlace\<close> reaches it for
  \<open>file\<close> in the world \<open>w\<close>: at \<^verbatim>\<open>open\<close>, at \<^verbatim>\<open>readMetadata\<close> or at
  \<^verbatim>\<open>writeMetadata\<close>.
\<close>

definition codec_raises :: "env \<Rightarrow> path \<Rightarrow> string \<Rightarrow> world \<Rightarrow> exn option" where
  "codec_raises e file dt w =
     (case image_open e file (content w file) of
        Inl x \<Rightarrow> Some x
      | Inr False \<Rightarrow> None
      | Inr True \<Rightarrow>
          (case read_metadata e file (content w file) of
             Inl x \<Rightarrow> Some x
           | Inr exif0 \<Rightarrow>
               snd (write_metadata e file (content w file)
                      (exif0(''Exif.Photo.DateTimeOriginal'' \<mapsto> dt,
                             ''Exif.Photo.DateTimeDigitized'' \<mapsto> dt,
                             ''Exif.Image.DateTime'' \<mapsto> dt)))))"

subsection \<open>A concrete run\<close>

text \<open>
  A directory \<open>d\<close> with two images, a text file and a file the codec rejects; a codec
  that appends the timestamp to the bytes it is given.
\<close>

definition sample_env :: env where
  "sample_env =
     \<lparr>status_error = (\<lambda>p. None),
      can_open_source = (\<lambda>p. True),
      can_open_destination = (\<lambda>p. True),
      write_capacity = (\<lambda>p. None),
      device_input = (\<lambda>p. []),
      image_open = (\<lambda>p c. if c = Some ''bad'' then Inl (Exiv2_Error ''unknown image type'')
                           else Inr True),
      read_metadata = (\<lambda>p c. Inr Map.empty),
      write_metadata = (\<lambda>p c x. (case (c, x ''Exif.Image.DateTime'') of
                                    (Some b, Some d) \<Rightarrow> Some (b @ d) | _ \<Rightarrow> None, None)),
      directory_iterator =
        (\<lambda>p. [Next_entry ''d/a.jpg'', Next_entry ''d/sub'', Next_entry ''d/notes.txt'',
              Next_entry ''d/b.JPEG'']),
      recursive_directory_iterator =
        (\<lambda>p. [Next_entry ''d/a.jpg'', Next_entry ''d/sub'', Next_entry ''d/sub/c.jpg'',
              Next_entry ''d/notes.txt'', Next_entry ''d/b.JPEG''])\<rparr>"

text \<open>
  Three variations: an iterator that sees the backup of \<open>d/a.jpg\<close> once it is there; a
  subdirectory the recursive iterator cannot open; a device that accepts one more byte.
\<close>

definition sample_env_live :: env where
  "sample_env_live =
     sample_env\<lparr>directory_iterator :=
       (\<lambda>p. [Next_entry ''d/a.jpg'', Next_entry ''d/a.jpg.bak'', Next_entry ''d/notes.txt'',
             Next_entry ''d/b.JPEG''])\<rparr>"

definition sample_env_unreadable :: env where
  "sample_env_unreadable =
     sample_env\<lparr>recursive_directory_iterator :=
       (\<lambda>p. [Next_entry ''d/a.jpg'', Next_entry ''d/b.JPEG'', Next_entry ''d/sub'',
             Iterator_error ''cannot open directory: Permission denied [d/sub]''])\<rparr>"

definition sample_env_full :: env where
  "sample_env_full = sample_env\<lparr>write_capacity := (\<lambda>p. Some 1)\<rparr>"

definition sample_world :: world where
  "sample_world =
     \<lparr>files = [''d'' \<mapsto> Directory, ''d/a.jpg'' \<mapsto> Regular ''AAA'',
               ''d/sub'' \<mapsto> Directory, ''d/notes.txt'' \<mapsto> Regular ''n'',
               ''d/b.JPEG'' \<mapsto> Regular ''BB'', ''d/sub/c.jpg'' \<mapsto> Regular ''bad''],
      console = [],
      ops = []\<rparr>"

text \<open>The same directory after an earlier run left a backup of \<open>d/a.jpg\<close> behind.\<close>

definition sample_world_with_backup :: world where
  "sample_world_with_backup =
     sample_world\<lparr>files := (files sample_world)(''d/a.jpg.bak'' \<mapsto> Regular ''old'')\<rparr>"

section \<open>The timestamp validator\<close>

lemma all_less_19:
  "(\<forall>i<19. P (i::nat)) =
     (P 0 \<and> P 1 \<and> P 2 \<and> P 3 \<and> P 4 \<and> P 5 \<and> P 6 \<and> P 7 \<and> P 8 \<and> P 9 \<and> P 10 \<and>
      P 11 \<and> P 12 \<and> P 13 \<and> P 14 \<and> P 15 \<and> P 16 \<and> P 17 \<and> P 18)"
  by (simp add: numeral_eq_Suc All_less_Suc conj_commute conj_left_commute)

text \<open>
  Claim C3. For every string \<open>s\<close>, \<^verbatim>\<open>IsValidExifDateTime\<close> accepts \<open>s\<close> exactly when
  \<open>s\<close> has 19 characters, a colon at the indices 4, 7, 13 and 16, a space at index 10
  and a decimal digit at every other index. Nothing checks the calendar: month 13 is
  accepted.
\<close>

theorem IsValidExifDateTime_iff_pattern:
  "IsValidExifDateTime s = matches_exif_pattern s \<and>
   IsValidExifDateTime ''2026:13:25 18:30:00''"
proof
  show "IsValidExifDateTime s = matches_exif_pattern s"
    unfolding IsValidExifDateTime_def matches_exif_pattern_def all_less_19 by auto
  show "IsValidExifDateTime ''2026:13:25 18:30:00''"
    by (simp add: IsValidExifDateTime_def is_digit_def)
qed

theorem IsValidExifDateTime_iff_pattern_witness:
  "matches_exif_pattern ''2026:02:25 18:30:00'' \<and>
   \<not> matches_exif_pattern ''2026-02-25 18:30:00'' \<and>
   \<not> matches_exif_pattern ''2026:02:25 18:30:0''"
proof -
  have a: "IsValidExifDateTime ''2026:02:25 18:30:00''"
    by (simp add: IsValidExifDateTime_def is_digit_def)
  have b: "\<not> IsValidExifDateTime ''2026-02-25 18:30:00''"
    by (simp add: IsValidExifDateTime_def is_digit_def)
  have c: "\<not> IsValidExifDateTime ''2026:02:25 18:30:0''"
    by (simp add: IsValidExifDateTime_def is_digit_def)
  show ?thesis
    using a b c IsValidExifDateTime_iff_pattern [of "''2026:02:25 18:30:00''"]
      IsValidExifDateTime_iff_pattern [of "''2026-02-25 18:30:00''"]
      IsValidExifDateTime_iff_pattern [of "''2026:02:25 18:30:0''"]
    by simp
qed

section \<open>Backup paths and the type filter\<close>

lemma filename_backup_path_of: "filename (backup_path_of p) = filename p @ ''.bak''"
  by (simp add: filename_def backup_path_of_def is_separator_def)

lemma extension_backup_path_of:
  "extension (backup_path_of p) = (if filename p = [] then [] else ''.bak'')"
  by (simp add: extension_def filename_backup_path_of Let_def)

lemma not_IsJpegPath_backup_path_of: "\<not> IsJpegPath (backup_path_of p)"
  by (simp add: IsJpegPath_def extension_backup_path_of ToLower_def tolower_def)

lemma tolower_eq_iff:
  assumes "\<not> is_upper l"
  shows "(tolower c = l) = same_ignoring_case c l"
proof (cases "is_upper c")
  case True
  then have b: "of_char c + (32::nat) < 256" by (simp add: is_upper_def)
  have "(char_of (of_char c + (32::nat)) = l) = (of_char c + (32::nat) = of_char l)"
    using b by (simp add: char_of_eq_iff take_bit_eq_mod)
  moreover have "c \<noteq> l" using True assms by auto
  ultimately show ?thesis using True assms
    by (auto simp: tolower_def same_ignoring_case_def is_upper_def)
next
  case False
  then show ?thesis using assms
    by (auto simp: tolower_def same_ignoring_case_def is_upper_def)
qed

lemma ToLower_eq_iff:
  "list_all (\<lambda>l. \<not> is_upper l) pat \<Longrightarrow> (ToLower s = pat) = matches_ignoring_case s pat"
proof (induction s arbitrary: pat)
  case Nil
  show ?case by (auto simp: ToLower_def matches_ignoring_case_def)
next
  case (Cons c s)
  show ?case
  proof (cases pat)
    case Nil
    then show ?thesis by (simp add: ToLower_def matches_ignoring_case_def)
  next
    case (Cons l ls)
    then have l: "\<not> is_upper l" and ls: "list_all (\<lambda>l. \<not> is_upper l) ls"
      using Cons.prems by simp_all
    show ?thesis
      using Cons.IH [OF ls] tolower_eq_iff [OF l, of c] Cons
      by (simp add: ToLower_def matches_ignoring_case_def)
  qed
qed

lemma IsJpegPath_iff:
  "IsJpegPath p =
     (matches_ignoring_case (extension p) ''.jpg'' \<or> matches_ignoring_case (extension p) ''.jpeg'')"
proof -
  have a: "list_all (\<lambda>l. \<not> is_upper l) ''.jpg''" by (simp add: is_upper_def)
  have b: "list_all (\<lambda>l. \<not> is_upper l) ''.jpeg''" by (simp add: is_upper_def)
  show ?thesis
    by (simp only: IsJpegPath_def Let_def ToLower_eq_iff [OF a] ToLower_eq_iff [OF b])
qed

lemma IsJpegPath_filename: "IsJpegPath p \<Longrightarrow> filename p \<noteq> []"
  by (auto simp: IsJpegPath_def extension_def Let_def ToLower_def)

text \<open>
  Claim C9. For every path \<open>p\<close>, the backup path \<open>p\<close> with \<^verbatim>\<open>.bak\<close> appended does not
  pass \<^verbatim>\<open>IsJpegPath\<close>: its extension is \<^verbatim>\<open>.bak\<close> (or empty, when \<open>p\<close> has no
  filename and \<^verbatim>\<open>.bak\<close> is itself the whole filename, which no path that passes
  the filter does). So an entry with a backup path is never a candidate:
  \<^verbatim>\<open>process_entry\<close> counts it as skipped when it is a regular file, and leaves the
  world as it is, whatever the flags, in this run and in any later one.
\<close>

theorem backup_path_never_jpeg:
  "\<not> IsJpegPath (backup_path_of p) \<and>
   extension (backup_path_of p) = (if filename p = [] then [] else ''.bak'') \<and>
   (IsJpegPath p \<longrightarrow> extension (backup_path_of p) = ''.bak'') \<and>
   process_entry e dt dry_run make_backup
     \<lparr>entry_path = backup_path_of p, is_regular_file = r\<rparr> (c, w) =
     (if r then c\<lparr>skipped := skipped c + 1\<rparr> else c, w)"
  using IsJpegPath_filename [of p]
  by (simp add: not_IsJpegPath_backup_path_of extension_backup_path_of process_entry_def)

theorem backup_path_never_jpeg_witness:
  "backup_path_of ''d/a.jpg'' = ''d/a.jpg.bak'' \<and>
   \<not> IsJpegPath ''d/a.jpg.bak'' \<and> IsJpegPath ''d/a.jpg'' \<and>
   extension ''d/a.jpg.bak'' = ''.bak'' \<and>
   process_entry sample_env ''2026:02:25 18:30:00'' False True
     \<lparr>entry_path = ''d/a.jpg.bak'', is_regular_file = True\<rparr>
     (\<lparr>total = 1, ok = 1, skipped = 0\<rparr>, sample_world) =
     (\<lparr>total = 1, ok = 1, skipped = 1\<rparr>, sample_world)"
proof -
  have a: "backup_path_of ''d/a.jpg'' = ''d/a.jpg.bak''"
    by (simp add: backup_path_of_def)
  have b: "IsJpegPath ''d/a.jpg''"
    by code_simp
  have c: "filename ''d/a.jpg'' \<noteq> []"
    by (simp add: filename_def is_separator_def)
  show ?thesis
    using a b c
      backup_path_never_jpeg [of "''d/a.jpg''" sample_env "''2026:02:25 18:30:00''" False True
        True "\<lparr>total = 1, ok = 1, skipped = 0\<rparr>" sample_world]
    by simp
qed

section \<open>Facts about the world and CopyFileBinary\<close>

lemma print_simps [simp]:
  "files (print m w) = files w" "ops (print m w) = ops w"
  "console (print m w) = console w @ [m]"
  by (simp_all add: print_def)

lemma log_op_simps [simp]:
  "files (log_op x w) = files w" "console (log_op x w) = console w"
  "ops (log_op x w) = ops w @ [x]"
  by (simp_all add: log_op_def)

lemma content_print [simp]: "content (print m w) p = content w p"
  by (simp add: content_def)

lemma content_log_op [simp]: "content (log_op x w) p = content w p"
  by (simp add: content_def)

lemma content_Some_iff: "content w p = Some b \<longleftrightarrow> files w p = Some (Regular b)"
  by (simp add: content_def split: option.splits node.splits)

lemma store_simps [simp]:
  "console (store dst b w) = console w" "ops (store dst b w) = ops w"
  by (simp_all add: store_def split: option.splits node.splits)

lemma files_store:
  "files (store dst b w) =
     (if files w dst = Some Other then files w else (files w)(dst \<mapsto> Regular b))"
  by (simp add: store_def split: option.splits node.splits)

lemma fs_exists_snd [simp]: "snd (fs_exists e p w) = log_op (Op_exists p) w"
  by (simp add: fs_exists_def split: option.splits)

lemma fs_exists_fst:
  "fst (fs_exists e p w) =
     (case status_error e p of Some m \<Rightarrow> Inl (Std_exception m) | None \<Rightarrow> Inr (files w p \<noteq> None))"
  by (simp add: fs_exists_def split: option.splits)

lemma CopyFileBinary_console [simp]: "console (snd (CopyFileBinary e src dst w)) = console w"
  by (simp add: CopyFileBinary_def Let_def)

lemma CopyFileBinary_files_other:
  "p \<noteq> dst \<Longrightarrow> files (snd (CopyFileBinary e src dst w)) p = files w p"
  by (simp add: CopyFileBinary_def Let_def files_store)

lemma CopyFileBinary_codec_ops [simp]:
  "filter is_codec_op (ops (snd (CopyFileBinary e src dst w))) = filter is_codec_op (ops w)"
  by (simp add: CopyFileBinary_def Let_def)

lemma CopyFileBinary_files_absent:
  "files w dst = None \<Longrightarrow>
     files (snd (CopyFileBinary e src dst w)) = files w \<or>
     (\<exists>b. files (snd (CopyFileBinary e src dst w)) = (files w)(dst \<mapsto> Regular b))"
  by (auto simp: CopyFileBinary_def Let_def files_store)

lemma CopyFileBinary_regular_source:
  assumes "files w src = Some (Regular bytes)" "src \<noteq> dst" "files w dst = None"
  shows "CopyFileBinary e src dst w =
           (if \<not> can_open_source e src
            then (Inl ''failed to open source for backup'', log_op (Op_open_source src) w)
            else if \<not> can_open_destination e dst
            then (Inl ''failed to open destination for backup'',
                  log_op (Op_open_destination dst) (log_op (Op_open_source src) w))
            else if bytes = []
            then (Inl ''failed while writing backup'',
                  log_op (Op_write_backup dst)
                    (store dst [] (log_op (Op_open_destination dst)
                       (log_op (Op_open_source src) w))))
            else (Inr (),
                  store dst (case write_capacity e dst of None \<Rightarrow> bytes | Some n \<Rightarrow> take n bytes)
                    (log_op (Op_write_backup dst)
                       (store dst [] (log_op (Op_open_destination dst)
                          (log_op (Op_open_source src) w))))))"
proof -
  have sb: "source_bytes e (store dst [] (log_op (Op_open_destination dst)
              (log_op (Op_open_source src) w))) src = bytes"
    using assms by (simp add: source_bytes_def files_store)
  show ?thesis
    using assms by (simp add: CopyFileBinary_def Let_def sb cong: option.case_cong)
qed

section \<open>The backup step and the codec\<close>

lemma backup_path_of_neq [simp]: "backup_path_of file \<noteq> file" "file \<noteq> backup_path_of file"
  by (simp_all add: backup_path_of_def)

lemma UpdateExifInPlace_backup_existing:
  assumes "files w (backup_path_of file) \<noteq> None"
  shows "UpdateExifInPlace_backup e file w =
           (case status_error e (backup_path_of file) of
              Some m \<Rightarrow> (Inl (Std_exception m), log_op (Op_exists (backup_path_of file)) w)
            | None \<Rightarrow> (Inr (Some False),
                       print (Err_backup_exists (backup_path_of file))
                         (log_op (Op_exists (backup_path_of file)) w)))"
  using assms by (simp add: UpdateExifInPlace_backup_def fs_exists_def Let_def split: option.splits)

lemma UpdateExifInPlace_backup_absent:
  assumes "status_error e (backup_path_of file) = None" "files w (backup_path_of file) = None"
  shows "UpdateExifInPlace_backup e file w =
           (case CopyFileBinary e file (backup_path_of file) (log_op (Op_exists (backup_path_of file)) w) of
              (Inl err, w2) \<Rightarrow> (Inr (Some False), print (Err_backup_failed file err) w2)
            | (Inr u, w2) \<Rightarrow> (Inr None, w2))"
  using assms by (simp add: UpdateExifInPlace_backup_def fs_exists_def Let_def)

lemma UpdateExifInPlace_backup_passes:
  assumes "UpdateExifInPlace_backup e file w = (Inr None, w1)"
  shows "status_error e (backup_path_of file) = None \<and> files w (backup_path_of file) = None \<and>
         (\<exists>u. CopyFileBinary e file (backup_path_of file) (log_op (Op_exists (backup_path_of file)) w)
                = (Inr u, w1))"
  using assms
  by (auto simp: UpdateExifInPlace_backup_def fs_exists_def Let_def
      split: option.splits prod.splits sum.splits bool.splits if_splits)

lemma UpdateExifInPlace_backup_files:
  "files (snd (UpdateExifInPlace_backup e file w)) = files w \<or>
   (files w (backup_path_of file) = None \<and>
    (\<exists>b. files (snd (UpdateExifInPlace_backup e file w)) =
           (files w)(backup_path_of file \<mapsto> Regular b)))"
proof (cases "files w (backup_path_of file) = None \<and> status_error e (backup_path_of file) = None")
  case False
  then show ?thesis
    by (auto simp: UpdateExifInPlace_backup_def fs_exists_def Let_def split: option.splits)
next
  case True
  let ?bp = "backup_path_of file"
  obtain r w2 where c: "CopyFileBinary e file ?bp (log_op (Op_exists ?bp) w) = (r, w2)"
    by (cases "CopyFileBinary e file ?bp (log_op (Op_exists ?bp) w)")
  have "files w2 = files w \<or> (\<exists>b. files w2 = (files w)(?bp \<mapsto> Regular b))"
    using CopyFileBinary_files_absent [of "log_op (Op_exists ?bp) w" "?bp" e "file"] c True
    by simp
  then show ?thesis using True c
    by (cases r) (simp_all add: UpdateExifInPlace_backup_absent)
qed

lemma UpdateExifInPlace_mutate_files_other:
  "p \<noteq> file \<Longrightarrow> files (snd (UpdateExifInPlace_mutate e file dt w)) p = files w p"
  by (simp add: UpdateExifInPlace_mutate_def Let_def
      split: sum.splits bool.splits prod.splits option.splits)

lemma UpdateExifInPlace_mutate_files:
  "files (snd (UpdateExifInPlace_mutate e file dt w)) = files w \<or>
   (\<exists>b. files (snd (UpdateExifInPlace_mutate e file dt w)) = (files w)(file \<mapsto> Regular b))"
  by (auto simp: UpdateExifInPlace_mutate_def Let_def
      split: sum.splits bool.splits prod.splits option.splits)

lemma UpdateExifInPlace_mutate_console:
  "console (snd (UpdateExifInPlace_mutate e file dt w)) =
     console w @ (case fst (UpdateExifInPlace_mutate e file dt w) of
                    Inl x \<Rightarrow> []
                  | Inr True \<Rightarrow> [Out_OK file]
                  | Inr False \<Rightarrow> [Err_open_failed file])"
  by (simp add: UpdateExifInPlace_mutate_def Let_def
      split: sum.splits bool.splits prod.splits option.splits)

lemma UpdateExifInPlace_mutate_raises:
  "codec_raises e file dt w = Some x \<Longrightarrow> fst (UpdateExifInPlace_mutate e file dt w) = Inl x"
  by (auto simp: UpdateExifInPlace_mutate_def codec_raises_def Let_def
      split: sum.splits bool.splits prod.splits option.splits)

lemma UpdateExifInPlace_dry_run:
  "UpdateExifInPlace e file dt True make_backup w = (True, print (Out_DRY file) w)"
  by (simp add: UpdateExifInPlace_def UpdateExifInPlace_try_def)

lemma UpdateExifInPlace_no_backup:
  "UpdateExifInPlace e file dt False False w =
     (case UpdateExifInPlace_mutate e file dt w of
        (Inr b, w1) \<Rightarrow> (b, w1)
      | (Inl x, w1) \<Rightarrow> (False, print (Err_exception file (what x)) w1))"
  by (simp add: UpdateExifInPlace_def UpdateExifInPlace_try_def
      split: prod.splits sum.splits exn.splits)

lemma UpdateExifInPlace_with_backup:
  "UpdateExifInPlace e file dt False True w =
     (case UpdateExifInPlace_backup e file w of
        (Inl x, w1) \<Rightarrow> (False, print (Err_exception file (what x)) w1)
      | (Inr (Some b), w1) \<Rightarrow> (b, w1)
      | (Inr None, w1) \<Rightarrow> UpdateExifInPlace e file dt False False w1)"
  by (simp add: UpdateExifInPlace_def UpdateExifInPlace_try_def
      split: prod.splits sum.splits exn.splits option.splits)

lemma UpdateExifInPlace_no_backup_files:
  "files (snd (UpdateExifInPlace e file dt False False w)) = files w \<or>
   (\<exists>b. files (snd (UpdateExifInPlace e file dt False False w)) = (files w)(file \<mapsto> Regular b))"
  using UpdateExifInPlace_mutate_files [of e "file" dt w]
  by (auto simp: UpdateExifInPlace_no_backup split: prod.splits sum.splits)

lemma UpdateExifInPlace_with_backup_files:
  "\<exists>f1. (f1 = files w \<or>
         (files w (backup_path_of file) = None \<and>
          (\<exists>b. f1 = (files w)(backup_path_of file \<mapsto> Regular b)))) \<and>
        (files (snd (UpdateExifInPlace e file dt False True w)) = f1 \<or>
         (\<exists>b. files (snd (UpdateExifInPlace e file dt False True w)) = f1(file \<mapsto> Regular b)))"
proof -
  obtain r w1 where b: "UpdateExifInPlace_backup e file w = (r, w1)"
    by (cases "UpdateExifInPlace_backup e file w")
  have f1: "files w1 = files w \<or>
         (files w (backup_path_of file) = None \<and>
          (\<exists>b. files w1 = (files w)(backup_path_of file \<mapsto> Regular b)))"
    using UpdateExifInPlace_backup_files [of e "file" w] b by simp
  have "files (snd (UpdateExifInPlace e file dt False True w)) = files w1 \<or>
        (\<exists>b. files (snd (UpdateExifInPlace e file dt False True w)) = (files w1)(file \<mapsto> Regular b))"
    using b UpdateExifInPlace_no_backup_files [of e "file" dt w1]
    by (cases r) (auto simp: UpdateExifInPlace_with_backup split: option.splits)
  then show ?thesis using f1 by blast
qed

lemma grown_from_refl: "grown_from f f"
  by (auto simp: grown_from_def)

lemma grown_from_trans: "grown_from f0 f \<Longrightarrow> grown_from f g \<Longrightarrow> grown_from f0 g"
  unfolding grown_from_def by metis

lemma UpdateExifInPlace_grown:
  assumes "is_regular (files w file)" "IsJpegPath file"
  shows "grown_from (files w) (files (snd (UpdateExifInPlace e file dt dry_run make_backup w)))"
proof (cases dry_run)
  case True
  then show ?thesis by (simp add: UpdateExifInPlace_dry_run grown_from_refl)
next
  case dry: False
  show ?thesis
  proof (cases make_backup)
    case False
    then show ?thesis
      using dry assms(1) UpdateExifInPlace_no_backup_files [of e "file" dt w]
      by (auto simp: grown_from_def split: if_splits)
  next
    case True
    from UpdateExifInPlace_with_backup_files [of w "file" e dt] obtain f1 where
      a: "f1 = files w \<or>
         (files w (backup_path_of file) = None \<and>
          (\<exists>b. f1 = (files w)(backup_path_of file \<mapsto> Regular b)))" and
      b: "files (snd (UpdateExifInPlace e file dt False True w)) = f1 \<or>
         (\<exists>b. files (snd (UpdateExifInPlace e file dt False True w)) = f1(file \<mapsto> Regular b))"
      by blast
    have g1: "grown_from (files w) f1"
      using a assms(2) by (auto simp: grown_from_def split: if_splits)
    have r1: "is_regular (f1 file)"
      using a assms(1) by auto
    have g2: "grown_from f1 (files (snd (UpdateExifInPlace e file dt False True w)))"
      using b r1 by (auto simp: grown_from_def split: if_splits)
    show ?thesis using grown_from_trans [OF g1 g2] dry True by simp
  qed
qed

lemma UpdateExifInPlace_same_paths:
  assumes "dry_run \<or> \<not> make_backup" "is_regular (files w file)"
  shows "(files (snd (UpdateExifInPlace e file dt dry_run make_backup w)) p = None) =
           (files w p = None)"
proof (cases dry_run)
  case True
  then show ?thesis by (simp add: UpdateExifInPlace_dry_run)
next
  case False
  then have "\<not> make_backup" using assms(1) by simp
  then show ?thesis
    using False assms(2) UpdateExifInPlace_no_backup_files [of e "file" dt w]
    by (auto split: if_splits)
qed

section \<open>The traversal\<close>

lemma process_entry_not_candidate:
  "\<not> is_candidate entry \<Longrightarrow>
     process_entry e dt dry_run make_backup entry (c, w) =
       (if is_regular_file entry then c\<lparr>skipped := skipped c + 1\<rparr> else c, w)"
  by (simp add: process_entry_def is_candidate_def)

lemma process_entry_candidate:
  "is_candidate entry \<Longrightarrow>
     process_entry e dt dry_run make_backup entry (c, w) =
       (if fst (UpdateExifInPlace e (entry_path entry) dt dry_run make_backup w)
        then c\<lparr>total := total c + 1, ok := ok c + 1\<rparr> else c\<lparr>total := total c + 1\<rparr>,
        snd (UpdateExifInPlace e (entry_path entry) dt dry_run make_backup w))"
  by (simp add: process_entry_def is_candidate_def Let_def split: prod.splits bool.splits)

lemma process_entry_total:
  "total (fst (process_entry e dt dry_run make_backup entry (c, w))) =
     total c + (if is_candidate entry then 1 else 0)"
  by (cases "is_candidate entry")
     (simp_all add: process_entry_candidate process_entry_not_candidate)

lemma process_entry_skipped:
  "skipped (fst (process_entry e dt dry_run make_backup entry (c, w))) =
     skipped c + (if is_type_skipped entry then 1 else 0)"
  by (cases "is_candidate entry")
     (auto simp: process_entry_candidate process_entry_not_candidate is_type_skipped_def
        is_candidate_def)

lemma process_entry_ok_le:
  "ok c \<le> total c \<Longrightarrow>
     ok (fst (process_entry e dt dry_run make_backup entry (c, w)))
       \<le> total (fst (process_entry e dt dry_run make_backup entry (c, w)))"
  by (cases "is_candidate entry")
     (simp_all add: process_entry_candidate process_entry_not_candidate)

lemma process_entry_world:
  "snd (process_entry e dt dry_run make_backup entry (c, w)) =
     (if is_candidate entry
      then snd (UpdateExifInPlace e (entry_path entry) dt dry_run make_backup w) else w)"
  by (simp add: process_entry_candidate process_entry_not_candidate)

lemma process_entries_append:
  "process_entries e dt dry_run make_backup (xs @ ys) cw =
     process_entries e dt dry_run make_backup ys (process_entries e dt dry_run make_backup xs cw)"
  by (induction xs arbitrary: cw) simp_all

lemma process_entries_total:
  "total (fst (process_entries e dt dry_run make_backup es (c, w))) =
     total c + length (filter is_candidate es)"
proof (induction es arbitrary: c w)
  case Nil
  show ?case by simp
next
  case (Cons entry es)
  obtain c1 w1 where s: "process_entry e dt dry_run make_backup entry (c, w) = (c1, w1)"
    by (cases "process_entry e dt dry_run make_backup entry (c, w)")
  have "total c1 = total c + (if is_candidate entry then 1 else 0)"
    using process_entry_total [of e dt dry_run make_backup entry c w] s by simp
  then show ?case using Cons.IH [of c1 w1] s by simp
qed

lemma process_entries_skipped:
  "skipped (fst (process_entries e dt dry_run make_backup es (c, w))) =
     skipped c + length (filter is_type_skipped es)"
proof (induction es arbitrary: c w)
  case Nil
  show ?case by simp
next
  case (Cons entry es)
  obtain c1 w1 where s: "process_entry e dt dry_run make_backup entry (c, w) = (c1, w1)"
    by (cases "process_entry e dt dry_run make_backup entry (c, w)")
  have "skipped c1 = skipped c + (if is_type_skipped entry then 1 else 0)"
    using process_entry_skipped [of e dt dry_run make_backup entry c w] s by simp
  then show ?case using Cons.IH [of c1 w1] s by simp
qed

lemma process_entries_ok_le:
  "ok c \<le> total c \<Longrightarrow>
     ok (fst (process_entries e dt dry_run make_backup es (c, w)))
       \<le> total (fst (process_entries e dt dry_run make_backup es (c, w)))"
proof (induction es arbitrary: c w)
  case Nil
  then show ?case by simp
next
  case (Cons entry es)
  obtain c1 w1 where s: "process_entry e dt dry_run make_backup entry (c, w) = (c1, w1)"
    by (cases "process_entry e dt dry_run make_backup entry (c, w)")
  have "ok c1 \<le> total c1"
    using process_entry_ok_le [OF Cons.prems, of e dt dry_run make_backup entry w] s by simp
  then show ?case using Cons.IH [of c1 w1] s by simp
qed

lemma process_entries_world_filter:
  "snd (process_entries e dt dry_run make_backup es (c, w)) =
     snd (process_entries e dt dry_run make_backup (filter is_candidate es) (c', w))"
proof (induction es arbitrary: c c' w)
  case Nil
  show ?case by simp
next
  case (Cons entry es)
  obtain c1 w1 where s: "process_entry e dt dry_run make_backup entry (c, w) = (c1, w1)"
    by (cases "process_entry e dt dry_run make_backup entry (c, w)")
  obtain c2 w2 where t: "process_entry e dt dry_run make_backup entry (c', w) = (c2, w2)"
    by (cases "process_entry e dt dry_run make_backup entry (c', w)")
  have w12: "w1 = w2"
    using process_entry_world [of e dt dry_run make_backup entry c w]
      process_entry_world [of e dt dry_run make_backup entry c' w] s t by simp
  show ?case
  proof (cases "is_candidate entry")
    case True
    then show ?thesis using Cons.IH [of c1 w1 c2] s t w12 by simp
  next
    case False
    then have "w1 = w" using process_entry_world [of e dt dry_run make_backup entry c w] s by simp
    then show ?thesis using False Cons.IH [of c1 w c'] s by simp
  qed
qed

lemma process_entries_dry_run:
  "files (snd (process_entries e dt True make_backup es (c, w))) = files w \<and>
   ops (snd (process_entries e dt True make_backup es (c, w))) = ops w \<and>
   ok (fst (process_entries e dt True make_backup es (c, w))) + total c =
     total (fst (process_entries e dt True make_backup es (c, w))) + ok c"
proof (induction es arbitrary: c w)
  case Nil
  show ?case by simp
next
  case (Cons entry es)
  show ?case
  proof (cases "is_candidate entry")
    case True
    then show ?thesis
      using Cons.IH [of "c\<lparr>total := total c + 1, ok := ok c + 1\<rparr>" "print (Out_DRY (entry_path entry)) w"]
      by (simp add: process_entry_candidate UpdateExifInPlace_dry_run)
  next
    case False
    then show ?thesis
      using Cons.IH [of "c\<lparr>skipped := skipped c + 1\<rparr>" w] Cons.IH [of c w]
      by (cases "is_regular_file entry") (simp_all add: process_entry_not_candidate)
  qed
qed

lemma process_entries_dry_run_make_backup:
  "process_entries e dt True True es cw = process_entries e dt True False es cw"
proof (induction es arbitrary: cw)
  case Nil
  show ?case by simp
next
  case (Cons entry es)
  have "process_entry e dt True True entry cw = process_entry e dt True False entry cw"
    by (cases cw) (simp add: process_entry_def UpdateExifInPlace_dry_run Let_def)
  then show ?case using Cons.IH by simp
qed

lemma is_regular_file_entry_at [simp]: "is_regular_file (entry_at w p) = is_regular (files w p)"
  by (cases "files w p" rule: is_regular.cases) (simp_all add: entry_at_def)

lemma entry_path_entry_at [simp]: "entry_path (entry_at w p) = p"
  by (simp add: entry_at_def)

lemma is_candidate_entry_at:
  "is_candidate (entry_at w p) = (is_regular (files w p) \<and> IsJpegPath p)"
  by (simp add: is_candidate_def)

lemma is_type_skipped_entry_at:
  "is_type_skipped (entry_at w p) = (is_regular (files w p) \<and> \<not> IsJpegPath p)"
  by (simp add: is_type_skipped_def)

lemma for_each_entry_process_entries:
  "snd (for_each_entry e dt dry_run make_backup steps (c, w)) =
     process_entries e dt dry_run make_backup
       (traversed_entries e dt dry_run make_backup steps (c, w)) (c, w)"
proof (induction steps arbitrary: c w)
  case Nil
  show ?case by simp
next
  case (Cons step steps)
  show ?case
  proof (cases step)
    case (Iterator_error m)
    then show ?thesis by simp
  next
    case (Next_entry p)
    obtain c1 w1 where s: "process_entry e dt dry_run make_backup (entry_at w p) (c, w) = (c1, w1)"
      by (cases "process_entry e dt dry_run make_backup (entry_at w p) (c, w)")
    show ?thesis
      using Next_entry s Cons.IH [of c w] Cons.IH [of c1 w1]
      by (simp split: option.splits)
  qed
qed

lemma for_each_entry_dry_run_make_backup:
  "for_each_entry e dt True True steps cw = for_each_entry e dt True False steps cw"
proof (induction steps arbitrary: cw)
  case Nil
  show ?case by (cases cw) simp
next
  case (Cons step steps)
  obtain c w where cw: "cw = (c, w)" by (cases cw)
  have "process_entry e dt True True entry (c, w) = process_entry e dt True False entry (c, w)"
    for entry
    by (simp add: process_entry_def UpdateExifInPlace_dry_run Let_def)
  then show ?case using Cons.IH cw
    by (cases step) (simp_all split: option.splits)
qed

lemma for_each_entry_dry_run:
  "files (snd (snd (for_each_entry e dt True make_backup steps (c, w)))) = files w \<and>
   ops (snd (snd (for_each_entry e dt True make_backup steps (c, w)))) = ops w \<and>
   ok (fst (snd (for_each_entry e dt True make_backup steps (c, w)))) + total c =
     total (fst (snd (for_each_entry e dt True make_backup steps (c, w)))) + ok c"
  unfolding for_each_entry_process_entries
  by (rule process_entries_dry_run)

lemma traverse_eq:
  "traverse e folder dt (recursive, dry_run, make_backup) w =
     for_each_entry e dt dry_run make_backup
       (if recursive then recursive_directory_iterator e folder else directory_iterator e folder)
       (\<lparr>total = 0, ok = 0, skipped = 0\<rparr>, w)"
  by (simp add: traverse_def)

lemma traversed_eq:
  "traversed e folder dt (recursive, dry_run, make_backup) w =
     traversed_entries e dt dry_run make_backup
       (if recursive then recursive_directory_iterator e folder else directory_iterator e folder)
       (\<lparr>total = 0, ok = 0, skipped = 0\<rparr>, w)"
  by (simp add: traversed_def)

lemma traverse_process_entries:
  "snd (traverse e folder dt (recursive, dry_run, make_backup) w) =
     process_entries e dt dry_run make_backup
       (traversed e folder dt (recursive, dry_run, make_backup) w)
       (\<lparr>total = 0, ok = 0, skipped = 0\<rparr>, w)"
  unfolding traverse_eq traversed_eq by (rule for_each_entry_process_entries)

lemma process_entry_grown:
  assumes "grown_from f0 (files w)"
  shows "grown_from f0 (files (snd (process_entry e dt dry_run make_backup (entry_at w p) (c, w))))"
proof (cases "is_candidate (entry_at w p)")
  case False
  then show ?thesis using assms by (simp add: process_entry_world)
next
  case True
  then have "is_regular (files w p)" "IsJpegPath p"
    by (simp_all add: is_candidate_entry_at)
  from UpdateExifInPlace_grown [OF this, of e dt dry_run make_backup]
  show ?thesis using True assms by (simp add: process_entry_world grown_from_trans)
qed

lemma for_each_entry_counts:
  assumes "for_each_entry e dt dry_run make_backup steps (c, w) = (None, c', w')"
    and "grown_from f0 (files w)"
  shows "total c' = total c +
           length (filter (\<lambda>p. is_regular (f0 p) \<and> IsJpegPath p) (listed_paths steps)) \<and>
         skipped c' = skipped c +
           length (filter (\<lambda>p. is_regular (f0 p) \<and> \<not> IsJpegPath p) (listed_paths steps)) +
           length (filter (\<lambda>entry. f0 (entry_path entry) = None)
                     (traversed_entries e dt dry_run make_backup steps (c, w)))"
  using assms
proof (induction steps arbitrary: c w)
  case Nil
  then show ?case by simp
next
  case (Cons step steps)
  show ?case
  proof (cases step)
    case (Iterator_error m)
    then show ?thesis using Cons.prems by simp
  next
    case (Next_entry p)
    show ?thesis
    proof (cases "files w p = None")
      case True
      then have "f0 p = None" using Cons.prems(2) by (auto simp: grown_from_def)
      then show ?thesis
        using Next_entry True Cons.prems Cons.IH [of c w] by simp
    next
      case False
      have st: "status_error e p = None"
        using Cons.prems(1) unfolding Next_entry by (simp add: False split: option.splits)
      obtain c1 w1 where
        s: "process_entry e dt dry_run make_backup (entry_at w p) (c, w) = (c1, w1)"
        by (cases "process_entry e dt dry_run make_backup (entry_at w p) (c, w)")
      have g1: "grown_from f0 (files w1)"
        using process_entry_grown [OF Cons.prems(2), of e dt dry_run make_backup p c] s by simp
      have r: "for_each_entry e dt dry_run make_backup steps (c1, w1) = (None, c', w')"
        using Cons.prems(1) unfolding Next_entry by (simp add: False st s)
      note ih = Cons.IH [OF r g1]
      have t1: "total c1 = total c + (if is_regular (files w p) \<and> IsJpegPath p then 1 else 0)"
        using process_entry_total [of e dt dry_run make_backup "entry_at w p" c w] s
        by (simp add: is_candidate_entry_at)
      have s1: "skipped c1 = skipped c + (if is_regular (files w p) \<and> \<not> IsJpegPath p then 1 else 0)"
        using process_entry_skipped [of e dt dry_run make_backup "entry_at w p" c w] s
        by (simp add: is_type_skipped_entry_at)
      have tr: "traversed_entries e dt dry_run make_backup (step # steps) (c, w) =
                  entry_at w p # traversed_entries e dt dry_run make_backup steps (c1, w1)"
        unfolding Next_entry by (simp add: False st s)
      show ?thesis
      proof (cases "f0 p = None")
        case True
        then have "is_regular (files w p) \<and> \<not> IsJpegPath p"
          using False Cons.prems(2) not_IsJpegPath_backup_path_of
          by (auto simp: grown_from_def)
        then show ?thesis using ih t1 s1 tr True Next_entry by simp
      next
        case present: False
        then have "is_regular (files w p) = is_regular (f0 p)"
          using Cons.prems(2) by (auto simp: grown_from_def)
        then show ?thesis using ih t1 s1 tr present Next_entry by simp
      qed
    qed
  qed
qed

lemma traversed_entries_new_paths:
  assumes "grown_from f0 (files w)"
  shows "list_all (\<lambda>entry. f0 (entry_path entry) = None \<longrightarrow>
                     (\<exists>q. IsJpegPath q \<and> entry_path entry = backup_path_of q))
           (traversed_entries e dt dry_run make_backup steps (c, w))"
  using assms
proof (induction steps arbitrary: c w)
  case Nil
  show ?case by simp
next
  case (Cons step steps)
  show ?case
  proof (cases step)
    case (Iterator_error m)
    then show ?thesis by simp
  next
    case (Next_entry p)
    obtain c1 w1 where
      s: "process_entry e dt dry_run make_backup (entry_at w p) (c, w) = (c1, w1)"
      by (cases "process_entry e dt dry_run make_backup (entry_at w p) (c, w)")
    have g1: "grown_from f0 (files w1)"
      using process_entry_grown [OF Cons.prems, of e dt dry_run make_backup p c] s by simp
    have here: "files w p \<noteq> None \<Longrightarrow> f0 p = None \<Longrightarrow>
                  \<exists>q. IsJpegPath q \<and> p = backup_path_of q"
      using Cons.prems by (auto simp: grown_from_def)
    show ?thesis
      unfolding Next_entry
      using Cons.IH [OF Cons.prems, of c] Cons.IH [OF g1, of c1] here
      by (simp add: s split: option.splits)
  qed
qed

lemma traversed_entries_old_paths:
  assumes "dry_run \<or> \<not> make_backup" "\<And>p. (files w p = None) = (f0 p = None)"
  shows "filter (\<lambda>entry. f0 (entry_path entry) = None)
           (traversed_entries e dt dry_run make_backup steps (c, w)) = []"
  using assms(2)
proof (induction steps arbitrary: c w)
  case Nil
  show ?case by simp
next
  case (Cons step steps)
  show ?case
  proof (cases step)
    case (Iterator_error m)
    then show ?thesis by simp
  next
    case (Next_entry p)
    obtain c1 w1 where
      s: "process_entry e dt dry_run make_backup (entry_at w p) (c, w) = (c1, w1)"
      by (cases "process_entry e dt dry_run make_backup (entry_at w p) (c, w)")
    have same: "(files w1 q = None) = (f0 q = None)" for q
    proof (cases "is_candidate (entry_at w p)")
      case False
      then have "w1 = w"
        using process_entry_world [of e dt dry_run make_backup "entry_at w p" c w] s by simp
      then show ?thesis using Cons.prems by simp
    next
      case True
      then have reg: "is_regular (files w p)" by (simp add: is_candidate_entry_at)
      have "w1 = snd (UpdateExifInPlace e p dt dry_run make_backup w)"
        using True process_entry_world [of e dt dry_run make_backup "entry_at w p" c w] s by simp
      then show ?thesis
        using UpdateExifInPlace_same_paths [OF assms(1) reg, of e dt q] Cons.prems by simp
    qed
    show ?thesis
      using Next_entry s Cons.IH [of w c] Cons.IH [of w1 c1] same Cons.prems
      by (simp split: option.splits)
  qed
qed

lemma parse_options_eq:
  "parse_options opts (r, d, m) =
     (if list_all known_option opts
      then Inr (r \<or> ''--recursive'' \<in> set opts, d \<or> ''--dry-run'' \<in> set opts,
                m \<and> ''--no-backup'' \<notin> set opts)
      else Inl (hd (filter (\<lambda>x. \<not> known_option x) opts)))"
  by (induction opts arbitrary: r d m) (auto simp: known_option_def)

lemma parse_options_flags_of:
  "list_all known_option opts \<Longrightarrow> parse_options opts (False, False, True) = Inr (flags_of opts)"
  by (simp add: parse_options_eq flags_of_def)

lemma parse_options_unknown:
  "\<not> list_all known_option opts \<Longrightarrow> \<exists>opt. parse_options opts (False, False, True) = Inl opt"
  by (simp add: parse_options_eq)


lemma main_usage_error:
  assumes "usage_error e argv w"
  shows "fst (main e argv w) = Inr 2 \<and> files (snd (main e argv w)) = files w \<and>
         ops (snd (main e argv w)) = ops w"
proof (cases "length argv < 3")
  case True
  then show ?thesis by (simp add: main_def)
next
  case len: False
  show ?thesis
  proof (cases "list_all known_option (drop 3 argv)")
    case False
    from parse_options_unknown [OF False] obtain opt where
      "parse_options (drop 3 argv) (False, False, True) = Inl opt" ..
    then show ?thesis using len by (simp add: main_def)
  next
    case True
    have "\<not> IsValidExifDateTime (argv ! 2) \<or> \<not> fs_is_directory_ec e (argv ! 1) w"
      using assms len True by (simp add: usage_error_def)
    then show ?thesis
      using len parse_options_flags_of [OF True]
      by (auto simp: main_def Let_def fs_is_directory_ec_def fs_exists_ec_def)
  qed
qed

lemma main_valid:
  assumes "\<not> usage_error e argv w"
  shows "main e argv w =
           (case traverse e (argv ! 1) (argv ! 2) (flags_of (drop 3 argv)) w of
              (Some x, c, w1) \<Rightarrow> (Inl x, w1)
            | (None, c, w1) \<Rightarrow>
                (Inr (if ok c = total c then 0 else 1),
                 print (Out_done (ok c) (total c) (skipped c)) w1))"
proof -
  from assms have len: "\<not> length argv < 3" and known: "list_all known_option (drop 3 argv)"
    and dt: "IsValidExifDateTime (argv ! 2)" and dir: "fs_is_directory_ec e (argv ! 1) w"
    by (simp_all add: usage_error_def)
  from dir have ex: "fs_exists_ec e (argv ! 1) w"
    by (simp add: fs_is_directory_ec_def fs_exists_ec_def)
  show ?thesis
    using len dt dir ex parse_options_flags_of [OF known]
    by (simp add: main_def Let_def)
qed

section \<open>An existing backup\<close>

text \<open>
  Claim C1. When \<^verbatim>\<open>UpdateExifInPlace\<close> runs with \<open>make_backup\<close> and without
  \<open>dry_run\<close> on a file whose backup path (the path with \<^verbatim>\<open>.bak\<close> appended) already
  exists, it returns \<^verbatim>\<open>false\<close>. All it does is query the backup path and print one
  error line (the "backup already exists" line, or the exception line when the query
  itself raises): no codec operation is attempted and the file system, the file's bytes
  included, is what it was. In a run the file counts in \<open>total\<close> and not in \<open>ok\<close>.
\<close>

theorem existing_backup_stops_file:
  assumes "files w (backup_path_of file) \<noteq> None"
  shows "UpdateExifInPlace e file dt False True w =
           (False,
            print (case status_error e (backup_path_of file) of
                     None \<Rightarrow> Err_backup_exists (backup_path_of file)
                   | Some m \<Rightarrow> Err_exception file m)
              (log_op (Op_exists (backup_path_of file)) w)) \<and>
         files (snd (UpdateExifInPlace e file dt False True w)) = files w \<and>
         ops (snd (UpdateExifInPlace e file dt False True w)) =
           ops w @ [Op_exists (backup_path_of file)] \<and>
         filter is_codec_op (ops (snd (UpdateExifInPlace e file dt False True w))) =
           filter is_codec_op (ops w) \<and>
         (IsJpegPath file \<longrightarrow>
            fst (process_entry e dt False True \<lparr>entry_path = file, is_regular_file = True\<rparr>
                   (c, w)) = c\<lparr>total := total c + 1\<rparr>)"
proof -
  have eq: "UpdateExifInPlace e file dt False True w =
       (False,
        print (case status_error e (backup_path_of file) of
                 None \<Rightarrow> Err_backup_exists (backup_path_of file)
               | Some m \<Rightarrow> Err_exception file m)
          (log_op (Op_exists (backup_path_of file)) w))"
    by (simp add: UpdateExifInPlace_with_backup UpdateExifInPlace_backup_existing [OF assms]
        split: option.splits)
  have "fst (process_entry e dt False True \<lparr>entry_path = file, is_regular_file = True\<rparr>
               (c, w)) = c\<lparr>total := total c + 1\<rparr>"
    if "IsJpegPath file"
    using that by (simp add: process_entry_candidate is_candidate_def eq)
  then show ?thesis unfolding eq by simp
qed

theorem existing_backup_stops_file_witness:
  "files sample_world_with_backup (backup_path_of ''d/a.jpg'') = Some (Regular ''old'') \<and>
   fst (UpdateExifInPlace sample_env ''d/a.jpg'' ''2026:02:25 18:30:00'' False True
          sample_world_with_backup) = False \<and>
   files (snd (UpdateExifInPlace sample_env ''d/a.jpg'' ''2026:02:25 18:30:00'' False True
          sample_world_with_backup)) ''d/a.jpg'' = Some (Regular ''AAA'') \<and>
   ops (snd (UpdateExifInPlace sample_env ''d/a.jpg'' ''2026:02:25 18:30:00'' False True
          sample_world_with_backup)) = [Op_exists ''d/a.jpg.bak''] \<and>
   fst (process_entry sample_env ''2026:02:25 18:30:00'' False True
          \<lparr>entry_path = ''d/a.jpg'', is_regular_file = True\<rparr>
          (\<lparr>total = 0, ok = 0, skipped = 0\<rparr>, sample_world_with_backup)) =
     \<lparr>total = 1, ok = 0, skipped = 0\<rparr>"
proof -
  have h: "files sample_world_with_backup (backup_path_of ''d/a.jpg'') = Some (Regular ''old'')"
    by (simp add: sample_world_with_backup_def sample_world_def backup_path_of_def)
  then have n: "files sample_world_with_backup (backup_path_of ''d/a.jpg'') \<noteq> None"
    by simp
  have f: "files sample_world_with_backup ''d/a.jpg'' = Some (Regular ''AAA'')"
    by (simp add: sample_world_with_backup_def sample_world_def)
  have o: "ops sample_world_with_backup = []"
    by (simp add: sample_world_with_backup_def sample_world_def)
  have b: "backup_path_of ''d/a.jpg'' = ''d/a.jpg.bak''"
    by (simp add: backup_path_of_def)
  have j: "IsJpegPath ''d/a.jpg''"
    by code_simp
  from existing_backup_stops_file
         [OF n, of sample_env "''2026:02:25 18:30:00''" "\<lparr>total = 0, ok = 0, skipped = 0\<rparr>"]
  show ?thesis using h f o b j by simp
qed

section \<open>Dry run\<close>

text \<open>
  Claim C10. With \<open>dry_run\<close> set, the value of \<open>make_backup\<close> changes nothing: for every
  file, timestamp and world \<^verbatim>\<open>UpdateExifInPlace\<close> gives the same result and the same
  world (the \<^verbatim>\<open>DRY\<close> line printed, nothing else), and so do \<^verbatim>\<open>process_entry\<close> and a
  whole traversal.
\<close>

theorem dry_run_ignores_make_backup:
  "UpdateExifInPlace e file dt True True w = UpdateExifInPlace e file dt True False w \<and>
   UpdateExifInPlace e file dt True True w = (True, print (Out_DRY file) w) \<and>
   process_entry e dt True True entry cw = process_entry e dt True False entry cw \<and>
   traverse e folder dt (recursive, True, True) w =
     traverse e folder dt (recursive, True, False) w"
proof -
  have "process_entry e dt True True entry cw = process_entry e dt True False entry cw"
    by (cases cw) (simp add: process_entry_def UpdateExifInPlace_dry_run Let_def)
  then show ?thesis
    by (simp add: UpdateExifInPlace_dry_run traverse_eq for_each_entry_dry_run_make_backup)
qed

theorem dry_run_ignores_make_backup_witness:
  "UpdateExifInPlace sample_env ''d/a.jpg'' ''2026:02:25 18:30:00'' True False
     sample_world_with_backup = (True, print (Out_DRY ''d/a.jpg'') sample_world_with_backup) \<and>
   fst (snd (traverse sample_env ''d'' ''2026:02:25 18:30:00'' (False, True, True)
               sample_world_with_backup)) = \<lparr>total = 2, ok = 2, skipped = 1\<rparr> \<and>
   fst (snd (traverse sample_env ''d'' ''2026:02:25 18:30:00'' (False, True, False)
               sample_world_with_backup)) = \<lparr>total = 2, ok = 2, skipped = 1\<rparr>"
proof -
  have t: "fst (snd (traverse sample_env ''d'' ''2026:02:25 18:30:00'' (False, True, True)
          sample_world_with_backup)) = \<lparr>total = 2, ok = 2, skipped = 1\<rparr>"
    by code_simp
  note th = dry_run_ignores_make_backup
         [of sample_env "''d/a.jpg''" "''2026:02:25 18:30:00''" sample_world_with_backup
            "\<lparr>entry_path = ''d/a.jpg'', is_regular_file = True\<rparr>"
            "(\<lparr>total = 0, ok = 0, skipped = 0\<rparr>, sample_world_with_backup)" "''d''" False]
  have a: "UpdateExifInPlace sample_env ''d/a.jpg'' ''2026:02:25 18:30:00'' True False
     sample_world_with_backup = (True, print (Out_DRY ''d/a.jpg'') sample_world_with_backup)"
    by (rule trans [OF th [THEN conjunct1, symmetric] th [THEN conjunct2, THEN conjunct1]])
  have b: "fst (snd (traverse sample_env ''d'' ''2026:02:25 18:30:00'' (False, True, False)
               sample_world_with_backup)) = \<lparr>total = 2, ok = 2, skipped = 1\<rparr>"
    unfolding th [THEN conjunct2, THEN conjunct2, THEN conjunct2, symmetric] by (rule t)
  show ?thesis using a b t by (intro conjI)
qed


section \<open>Counters\<close>

text \<open>
  Claim C5. After any number \<open>n\<close> of entries of a run, \<open>ok \<le> total\<close>; the step
  \<^verbatim>\<open>process_entry\<close> keeps \<open>ok \<le> total\<close> from any state, also between its increment of
  \<open>total\<close> and the outcome of the file. \<open>total\<close> grows by exactly one for a candidate
  and by nothing otherwise, whatever \<^verbatim>\<open>UpdateExifInPlace\<close> returns. A traversal does to
  the counters and the world what the loop does to the entries it has traversed, so when
  it ends, or is left by an exception, \<open>ok \<le> total\<close> and \<open>total\<close> is the number of
  candidates among the traversed entries.
\<close>

theorem counters_invariant:
  "ok (fst (process_entries e dt dry_run make_backup (take n es)
              (\<lparr>total = 0, ok = 0, skipped = 0\<rparr>, w)))
     \<le> total (fst (process_entries e dt dry_run make_backup (take n es)
                     (\<lparr>total = 0, ok = 0, skipped = 0\<rparr>, w))) \<and>
   (ok c \<le> total c \<longrightarrow>
      ok c \<le> total (c\<lparr>total := total c + 1\<rparr>) \<and>
      ok (fst (process_entry e dt dry_run make_backup entry (c, w)))
        \<le> total (fst (process_entry e dt dry_run make_backup entry (c, w)))) \<and>
   total (fst (process_entry e dt dry_run make_backup entry (c, w))) =
     total c + (if is_candidate entry then 1 else 0) \<and>
   total (fst (process_entries e dt dry_run make_backup es
                 (\<lparr>total = 0, ok = 0, skipped = 0\<rparr>, w))) =
     length (filter is_candidate es) \<and>
   snd (traverse e folder dt (recursive, dry_run, make_backup) w) =
     process_entries e dt dry_run make_backup
       (traversed e folder dt (recursive, dry_run, make_backup) w)
       (\<lparr>total = 0, ok = 0, skipped = 0\<rparr>, w) \<and>
   ok (fst (snd (traverse e folder dt (recursive, dry_run, make_backup) w)))
     \<le> total (fst (snd (traverse e folder dt (recursive, dry_run, make_backup) w))) \<and>
   total (fst (snd (traverse e folder dt (recursive, dry_run, make_backup) w))) =
     length (filter is_candidate (traversed e folder dt (recursive, dry_run, make_backup) w))"
proof -
  let ?z = "\<lparr>total = 0, ok = 0, skipped = 0\<rparr>"
  let ?tr = "traversed e folder dt (recursive, dry_run, make_backup) w"
  have a: "ok (fst (process_entries e dt dry_run make_backup (take n es) (?z, w)))
     \<le> total (fst (process_entries e dt dry_run make_backup (take n es) (?z, w)))"
    by (rule process_entries_ok_le) simp
  have b: "total (fst (process_entries e dt dry_run make_backup es (?z, w))) =
     length (filter is_candidate es)" for es
    by (simp add: process_entries_total)
  have t: "snd (traverse e folder dt (recursive, dry_run, make_backup) w) =
     process_entries e dt dry_run make_backup ?tr (?z, w)"
    by (rule traverse_process_entries)
  have o: "ok (fst (process_entries e dt dry_run make_backup ?tr (?z, w)))
     \<le> total (fst (process_entries e dt dry_run make_backup ?tr (?z, w)))"
    by (rule process_entries_ok_le) simp
  show ?thesis
    unfolding t
    using a b [of es] b [of ?tr] o process_entry_ok_le [of c e dt dry_run make_backup entry w]
      process_entry_total [of e dt dry_run make_backup entry c w]
    by simp
qed

theorem counters_invariant_witness:
  "traversed sample_env ''d'' ''2026:02:25 18:30:00'' (False, False, True)
     sample_world_with_backup =
     [\<lparr>entry_path = ''d/a.jpg'', is_regular_file = True\<rparr>,
      \<lparr>entry_path = ''d/sub'', is_regular_file = False\<rparr>,
      \<lparr>entry_path = ''d/notes.txt'', is_regular_file = True\<rparr>,
      \<lparr>entry_path = ''d/b.JPEG'', is_regular_file = True\<rparr>] \<and>
   map (\<lambda>n. fst (process_entries sample_env ''2026:02:25 18:30:00'' False True
                   (take n (traversed sample_env ''d'' ''2026:02:25 18:30:00''
                              (False, False, True) sample_world_with_backup))
                   (\<lparr>total = 0, ok = 0, skipped = 0\<rparr>, sample_world_with_backup)))
     [0, 1, 2, 3, 4] =
     [\<lparr>total = 0, ok = 0, skipped = 0\<rparr>, \<lparr>total = 1, ok = 0, skipped = 0\<rparr>,
      \<lparr>total = 1, ok = 0, skipped = 0\<rparr>, \<lparr>total = 1, ok = 0, skipped = 1\<rparr>,
      \<lparr>total = 2, ok = 1, skipped = 1\<rparr>] \<and>
   ok (fst (process_entry sample_env ''2026:02:25 18:30:00'' False True
              \<lparr>entry_path = ''d/a.jpg'', is_regular_file = True\<rparr>
              (\<lparr>total = 0, ok = 0, skipped = 0\<rparr>, sample_world_with_backup)))
     \<le> total (fst (process_entry sample_env ''2026:02:25 18:30:00'' False True
              \<lparr>entry_path = ''d/a.jpg'', is_regular_file = True\<rparr>
              (\<lparr>total = 0, ok = 0, skipped = 0\<rparr>, sample_world_with_backup))) \<and>
   total (fst (snd (traverse sample_env ''d'' ''2026:02:25 18:30:00'' (False, False, True)
                      sample_world_with_backup))) = 2"
proof -
  have tr: "traversed sample_env ''d'' ''2026:02:25 18:30:00'' (False, False, True)
     sample_world_with_backup =
     [\<lparr>entry_path = ''d/a.jpg'', is_regular_file = True\<rparr>,
      \<lparr>entry_path = ''d/sub'', is_regular_file = False\<rparr>,
      \<lparr>entry_path = ''d/notes.txt'', is_regular_file = True\<rparr>,
      \<lparr>entry_path = ''d/b.JPEG'', is_regular_file = True\<rparr>]"
    by code_simp
  have l: "map (\<lambda>n. fst (process_entries sample_env ''2026:02:25 18:30:00'' False True
                   (take n (traversed sample_env ''d'' ''2026:02:25 18:30:00''
                              (False, False, True) sample_world_with_backup))
                   (\<lparr>total = 0, ok = 0, skipped = 0\<rparr>, sample_world_with_backup)))
     [0, 1, 2, 3, 4] =
     [\<lparr>total = 0, ok = 0, skipped = 0\<rparr>, \<lparr>total = 1, ok = 0, skipped = 0\<rparr>,
      \<lparr>total = 1, ok = 0, skipped = 0\<rparr>, \<lparr>total = 1, ok = 0, skipped = 1\<rparr>,
      \<lparr>total = 2, ok = 1, skipped = 1\<rparr>]"
    by code_simp
  have h: "ok \<lparr>total = 0, ok = 0, skipped = 0\<rparr> \<le> total \<lparr>total = 0, ok = 0, skipped = 0\<rparr>"
    by simp
  have f: "length (filter is_candidate
             (traversed sample_env ''d'' ''2026:02:25 18:30:00'' (False, False, True)
                sample_world_with_backup)) = 2"
    by code_simp
  note th = counters_invariant
         [of sample_env "''2026:02:25 18:30:00''" False True 0 "[]" sample_world_with_backup
            "\<lparr>total = 0, ok = 0, skipped = 0\<rparr>"
            "\<lparr>entry_path = ''d/a.jpg'', is_regular_file = True\<rparr>" "''d''" False]
  have s: "ok (fst (process_entry sample_env ''2026:02:25 18:30:00'' False True
              \<lparr>entry_path = ''d/a.jpg'', is_regular_file = True\<rparr>
              (\<lparr>total = 0, ok = 0, skipped = 0\<rparr>, sample_world_with_backup)))
     \<le> total (fst (process_entry sample_env ''2026:02:25 18:30:00'' False True
              \<lparr>entry_path = ''d/a.jpg'', is_regular_file = True\<rparr>
              (\<lparr>total = 0, ok = 0, skipped = 0\<rparr>, sample_world_with_backup)))"
    using th [THEN conjunct2, THEN conjunct1] h by blast
  have t: "total (fst (snd (traverse sample_env ''d'' ''2026:02:25 18:30:00'' (False, False, True)
                      sample_world_with_backup))) = 2"
    using th [THEN conjunct2, THEN conjunct2, THEN conjunct2, THEN conjunct2, THEN conjunct2,
              THEN conjunct2] f
    by (rule trans)
  show ?thesis using tr l s t by (intro conjI)
qed

section \<open>Codec failures\<close>

lemma UpdateExifInPlace_backup_console:
  "case UpdateExifInPlace_backup e f w of
     (Inl x, w1) \<Rightarrow> console w1 = console w
   | (Inr None, w1) \<Rightarrow> console w1 = console w
   | (Inr (Some b), w1) \<Rightarrow> (\<exists>m. console w1 = console w @ [m] \<and> reports f m)"
proof (cases "files w (backup_path_of f) = None \<and> status_error e (backup_path_of f) = None")
  case False
  then show ?thesis
    by (auto simp: UpdateExifInPlace_backup_def fs_exists_def Let_def split: option.splits)
next
  case True
  obtain r w2 where c: "CopyFileBinary e f (backup_path_of f)
                          (log_op (Op_exists (backup_path_of f)) w) = (r, w2)"
    by (cases "CopyFileBinary e f (backup_path_of f)
                 (log_op (Op_exists (backup_path_of f)) w)")
  have "console w2 = console w"
    using CopyFileBinary_console [of e f "backup_path_of f"
        "log_op (Op_exists (backup_path_of f)) w"] c by simp
  then show ?thesis using True c
    by (cases r) (simp_all add: UpdateExifInPlace_backup_absent)
qed

lemma UpdateExifInPlace_no_backup_console:
  "\<exists>m. console (snd (UpdateExifInPlace e file dt False False w)) = console w @ [m] \<and>
        reports file m"
  using UpdateExifInPlace_mutate_console [of e "file" dt w]
  by (auto simp: UpdateExifInPlace_no_backup split: prod.splits sum.splits bool.splits)

lemma UpdateExifInPlace_console:
  "\<exists>m. console (snd (UpdateExifInPlace e file dt dry_run make_backup w)) = console w @ [m] \<and>
        reports file m"
proof (cases dry_run)
  case True
  then show ?thesis by (simp add: UpdateExifInPlace_dry_run)
next
  case dry: False
  show ?thesis
  proof (cases make_backup)
    case False
    then show ?thesis using dry UpdateExifInPlace_no_backup_console by simp
  next
    case True
    obtain r w1 where b: "UpdateExifInPlace_backup e file w = (r, w1)"
      by (cases "UpdateExifInPlace_backup e file w")
    show ?thesis
    proof (cases r)
      case (Inl x)
      then show ?thesis using dry True b UpdateExifInPlace_backup_console [where e = e and f = "file" and w = w]
        by (simp add: UpdateExifInPlace_with_backup)
    next
      case (Inr res)
      show ?thesis
      proof (cases res)
        case None
        then show ?thesis
          using dry True b Inr UpdateExifInPlace_backup_console [where e = e and f = "file" and w = w]
            UpdateExifInPlace_no_backup_console [of e "file" dt w1]
          by (simp add: UpdateExifInPlace_with_backup)
      next
        case (Some v)
        then show ?thesis
          using dry True b Inr UpdateExifInPlace_backup_console [where e = e and f = "file" and w = w]
          by (simp add: UpdateExifInPlace_with_backup)
      qed
    qed
  qed
qed

lemma process_entries_console:
  "\<exists>ms. console (snd (process_entries e dt dry_run make_backup es (c, w))) = console w @ ms \<and>
         list_all2 (\<lambda>entry m. reports (entry_path entry) m) (filter is_candidate es) ms"
proof (induction es arbitrary: c w)
  case Nil
  show ?case by simp
next
  case (Cons entry es)
  obtain c1 w1 where s: "process_entry e dt dry_run make_backup entry (c, w) = (c1, w1)"
    by (cases "process_entry e dt dry_run make_backup entry (c, w)")
  from Cons.IH [of c1 w1] obtain ms where
    ms: "console (snd (process_entries e dt dry_run make_backup es (c1, w1))) = console w1 @ ms"
        "list_all2 (\<lambda>entry m. reports (entry_path entry) m) (filter is_candidate es) ms"
    by blast
  show ?case
  proof (cases "is_candidate entry")
    case False
    then have "w1 = w"
      using process_entry_world [of e dt dry_run make_backup entry c w] s by simp
    then show ?thesis using False ms s by auto
  next
    case True
    then have w1: "w1 = snd (UpdateExifInPlace e (entry_path entry) dt dry_run make_backup w)"
      using process_entry_world [of e dt dry_run make_backup entry c w] s by simp
    from UpdateExifInPlace_console [of e "entry_path entry" dt dry_run make_backup w] w1
    obtain m where m: "console w1 = console w @ [m]" "reports (entry_path entry) m"
      by blast
    have "console (snd (process_entries e dt dry_run make_backup (entry # es) (c, w))) =
            console w @ (m # ms)"
      using ms(1) m(1) s by simp
    moreover have "list_all2 (\<lambda>entry m. reports (entry_path entry) m)
                     (filter is_candidate (entry # es)) (m # ms)"
      using True ms(2) m(2) by simp
    ultimately show ?thesis by blast
  qed
qed

text \<open>
  Claim C8. An exception the codec raises at \<^verbatim>\<open>open\<close>, \<^verbatim>\<open>readMetadata\<close> or
  \<^verbatim>\<open>writeMetadata\<close> does not leave \<^verbatim>\<open>UpdateExifInPlace\<close>: the function returns
  \<^verbatim>\<open>false\<close> and prints the error line with the exception's text, with or without the
  backup step before it. A run prints exactly one outcome line per candidate, in the
  order of the traversal, whatever the outcomes are (each candidate is attempted once),
  and an entry's outcome never stops the loop: the entries after it are processed from
  the state it leaves.
\<close>

theorem codec_failures_are_caught:
  "(codec_raises e file dt w = Some x \<longrightarrow>
      UpdateExifInPlace e file dt False False w =
        (False, print (Err_exception file (what x)) (snd (UpdateExifInPlace_mutate e file dt w)))) \<and>
   (UpdateExifInPlace_backup e file w = (Inr None, w1) \<and> codec_raises e file dt w1 = Some x \<longrightarrow>
      UpdateExifInPlace e file dt False True w =
        (False, print (Err_exception file (what x)) (snd (UpdateExifInPlace_mutate e file dt w1)))) \<and>
   (\<exists>ms. console (snd (process_entries e dt dry_run make_backup es (c, w0))) = console w0 @ ms \<and>
          list_all2 (\<lambda>entry m. reports (entry_path entry) m) (filter is_candidate es) ms) \<and>
   process_entries e dt dry_run make_backup (before @ entry # rest) cw =
     process_entries e dt dry_run make_backup rest
       (process_entry e dt dry_run make_backup entry
          (process_entries e dt dry_run make_backup before cw))"
proof -
  have one: "UpdateExifInPlace e file dt False False w' =
        (False, print (Err_exception file (what x)) (snd (UpdateExifInPlace_mutate e file dt w')))"
    if "codec_raises e file dt w' = Some x" for w'
    using UpdateExifInPlace_mutate_raises [OF that]
    by (cases "UpdateExifInPlace_mutate e file dt w'") (simp add: UpdateExifInPlace_no_backup)
  have two: "UpdateExifInPlace e file dt False True w =
        (False, print (Err_exception file (what x)) (snd (UpdateExifInPlace_mutate e file dt w1)))"
    if "UpdateExifInPlace_backup e file w = (Inr None, w1)" "codec_raises e file dt w1 = Some x"
    using that one [of w1] by (simp add: UpdateExifInPlace_with_backup)
  show ?thesis
    using one [of w] two process_entries_console [of e dt dry_run make_backup es c w0]
    by (simp add: process_entries_append)
qed

theorem codec_failures_are_caught_witness:
  "codec_raises sample_env ''d/sub/c.jpg'' ''2026:02:25 18:30:00'' sample_world =
     Some (Exiv2_Error ''unknown image type'') \<and>
   UpdateExifInPlace sample_env ''d/sub/c.jpg'' ''2026:02:25 18:30:00'' False False sample_world =
     (False, print (Err_exception ''d/sub/c.jpg'' ''unknown image type'')
               (log_op (Op_image_open ''d/sub/c.jpg'') sample_world)) \<and>
   fst (UpdateExifInPlace sample_env ''d/sub/c.jpg'' ''2026:02:25 18:30:00'' False True
          sample_world) = False \<and>
   fst (traverse sample_env ''d'' ''2026:02:25 18:30:00'' (True, False, True) sample_world) =
     None \<and>
   fst (snd (traverse sample_env ''d'' ''2026:02:25 18:30:00'' (True, False, True)
               sample_world)) = \<lparr>total = 3, ok = 2, skipped = 1\<rparr> \<and>
   console (snd (snd (traverse sample_env ''d'' ''2026:02:25 18:30:00'' (True, False, True)
                        sample_world))) =
     [Out_OK ''d/a.jpg'', Err_exception ''d/sub/c.jpg'' ''unknown image type'',
      Out_OK ''d/b.JPEG'']"
proof -
  let ?dt = "''2026:02:25 18:30:00''"
  let ?f = "''d/sub/c.jpg''"
  let ?x = "Exiv2_Error ''unknown image type''"
  let ?w1 = "snd (UpdateExifInPlace_backup sample_env ?f sample_world)"
  have r0: "codec_raises sample_env ?f ?dt sample_world = Some ?x"
    by code_simp
  have r1: "codec_raises sample_env ?f ?dt ?w1 = Some ?x"
    by code_simp
  have b: "fst (UpdateExifInPlace_backup sample_env ?f sample_world) = Inr None"
    by code_simp
  then have p: "UpdateExifInPlace_backup sample_env ?f sample_world = (Inr None, ?w1)"
    by (simp add: prod_eq_iff)
  have m: "snd (UpdateExifInPlace_mutate sample_env ?f ?dt sample_world) =
             log_op (Op_image_open ?f) sample_world"
    by (simp add: UpdateExifInPlace_mutate_def Let_def sample_env_def sample_world_def content_def)
  have t0: "fst (traverse sample_env ''d'' ?dt (True, False, True) sample_world) = None"
    by code_simp
  have t: "fst (snd (traverse sample_env ''d'' ?dt (True, False, True) sample_world)) =
             \<lparr>total = 3, ok = 2, skipped = 1\<rparr>"
    by code_simp
  have c: "console (snd (snd (traverse sample_env ''d'' ?dt (True, False, True) sample_world))) =
     [Out_OK ''d/a.jpg'', Err_exception ''d/sub/c.jpg'' ''unknown image type'',
      Out_OK ''d/b.JPEG'']"
    by code_simp
  from codec_failures_are_caught
         [of sample_env "?f" "?dt" sample_world "?x" "?w1" False True "[]"
            "\<lparr>total = 0, ok = 0, skipped = 0\<rparr>" sample_world "[]"
            "\<lparr>entry_path = ?f, is_regular_file = True\<rparr>" "[]"
            "(\<lparr>total = 0, ok = 0, skipped = 0\<rparr>, sample_world)"] r0 r1 p
  have "UpdateExifInPlace sample_env ?f ?dt False False sample_world =
          (False, print (Err_exception ?f (what ?x))
                    (snd (UpdateExifInPlace_mutate sample_env ?f ?dt sample_world)))"
    and "UpdateExifInPlace sample_env ?f ?dt False True sample_world =
          (False, print (Err_exception ?f (what ?x))
                    (snd (UpdateExifInPlace_mutate sample_env ?f ?dt ?w1)))"
    by blast+
  then show ?thesis using r0 m t0 t c by simp
qed

section \<open>Exit status\<close>

lemma main_result:
  "fst (main e argv w) =
     (if usage_error e argv w then Inr 2
      else case traverse e (argv ! 1) (argv ! 2) (flags_of (drop 3 argv)) w of
             (Some x, c, w1) \<Rightarrow> Inl x
           | (None, c, w1) \<Rightarrow> Inr (if ok c = total c then 0 else 1))"
proof (cases "usage_error e argv w")
  case True
  then show ?thesis using main_usage_error [OF True] by simp
next
  case False
  then show ?thesis by (simp add: main_valid split: prod.splits option.splits)
qed

lemma main_no_file_processed:
  "usage_error e argv w \<Longrightarrow>
     files (snd (main e argv w)) = files w \<and> ops (snd (main e argv w)) = ops w"
  using main_usage_error by blast

text \<open>
  Claim C2. The claim gives every run an exit status: 2 for a usage or validation error,
  otherwise 0 when \<open>ok\<close> equals \<open>total\<close> and 1 when it does not. \<^verbatim>\<open>main\<close> does return
  so whenever its loop ends (\<open>main_result\<close>, \<open>main_no_file_processed\<close>), but the loop
  is not inside a \<^verbatim>\<open>try\<close>. On the directory \<open>d\<close> with a subdirectory the recursive
  iterator cannot open, the command line \<^verbatim>\<open>exif_batch_set d "2026:02:25 18:30:00"
  --recursive\<close> is valid, both images are updated (\<open>ok = total = 2\<close>), and then the
  iterator's \<^verbatim>\<open>filesystem_error\<close> leaves \<^verbatim>\<open>main\<close> uncaught: the process ends in
  \<^verbatim>\<open>std::terminate\<close> and \<^verbatim>\<open>main\<close> returns no status at all.
\<close>

theorem main_terminates_on_iterator_error:
  "\<not> usage_error sample_env_unreadable
       [''exif_batch_set'', ''d'', ''2026:02:25 18:30:00'', ''--recursive''] sample_world \<and>
   fst (traverse sample_env_unreadable ''d'' ''2026:02:25 18:30:00'' (True, False, True)
          sample_world) =
     Some (Std_exception ''cannot open directory: Permission denied [d/sub]'') \<and>
   fst (snd (traverse sample_env_unreadable ''d'' ''2026:02:25 18:30:00'' (True, False, True)
               sample_world)) = \<lparr>total = 2, ok = 2, skipped = 0\<rparr> \<and>
   fst (main sample_env_unreadable
          [''exif_batch_set'', ''d'', ''2026:02:25 18:30:00'', ''--recursive''] sample_world) =
     Inl (Std_exception ''cannot open directory: Permission denied [d/sub]'')"
proof -
  have v: "IsValidExifDateTime ''2026:02:25 18:30:00''"
    by (simp add: IsValidExifDateTime_def is_digit_def)
  have u: "\<not> usage_error sample_env_unreadable
       [''exif_batch_set'', ''d'', ''2026:02:25 18:30:00'', ''--recursive''] sample_world"
    using v by (simp add: usage_error_def fs_is_directory_ec_def sample_world_def
        sample_env_unreadable_def sample_env_def known_option_def)
  have t: "fst (traverse sample_env_unreadable ''d'' ''2026:02:25 18:30:00'' (True, False, True)
          sample_world) =
     Some (Std_exception ''cannot open directory: Permission denied [d/sub]'')"
    by code_simp
  have c: "fst (snd (traverse sample_env_unreadable ''d'' ''2026:02:25 18:30:00''
               (True, False, True) sample_world)) = \<lparr>total = 2, ok = 2, skipped = 0\<rparr>"
    by code_simp
  have m: "fst (main sample_env_unreadable
          [''exif_batch_set'', ''d'', ''2026:02:25 18:30:00'', ''--recursive''] sample_world) =
     Inl (Std_exception ''cannot open directory: Permission denied [d/sub]'')"
    by code_simp
  show ?thesis using u t c m by (intro conjI)
qed

theorem main_terminates_on_iterator_error_witness:
  "fst (main sample_env_unreadable
          [''exif_batch_set'', ''d'', ''2026:02:25 18:30:00'', ''--recursive''] sample_world)
     \<noteq> Inr 0 \<and>
   fst (main sample_env_unreadable
          [''exif_batch_set'', ''d'', ''2026:02:25 18:30:00'', ''--recursive''] sample_world)
     \<noteq> Inr 1 \<and>
   fst (main sample_env_unreadable
          [''exif_batch_set'', ''d'', ''2026:02:25 18:30:00'', ''--recursive''] sample_world)
     \<noteq> Inr 2"
  using main_terminates_on_iterator_error by simp

section \<open>Dry run and the exit status\<close>

lemma dry_run_frame:
  "UpdateExifInPlace e file dt True make_backup w = (True, print (Out_DRY file) w) \<and>
   files (snd (snd (traverse e folder dt (recursive, True, make_backup) w))) = files w \<and>
   ops (snd (snd (traverse e folder dt (recursive, True, make_backup) w))) = ops w \<and>
   ok (fst (snd (traverse e folder dt (recursive, True, make_backup) w))) =
     total (fst (snd (traverse e folder dt (recursive, True, make_backup) w)))"
  using for_each_entry_dry_run [of e dt make_backup
      "if recursive then recursive_directory_iterator e folder else directory_iterator e folder"
      "\<lparr>total = 0, ok = 0, skipped = 0\<rparr>" w]
  by (simp add: UpdateExifInPlace_dry_run traverse_eq)

lemma dry_run_exit_status:
  assumes "\<not> usage_error e argv w" "''--dry-run'' \<in> set (drop 3 argv)"
  shows "fst (main e argv w) =
           (case fst (traverse e (argv ! 1) (argv ! 2) (flags_of (drop 3 argv)) w) of
              Some x \<Rightarrow> Inl x | None \<Rightarrow> Inr 0)"
proof -
  obtain r b where f: "flags_of (drop 3 argv) = (r, True, b)"
    using assms(2) by (simp add: flags_of_def)
  obtain x c w1 where tr: "traverse e (argv ! 1) (argv ! 2) (r, True, b) w = (x, c, w1)"
    by (cases "traverse e (argv ! 1) (argv ! 2) (r, True, b) w")
  have "ok c = total c"
    using dry_run_frame [where e = e and w = w and folder = "argv ! 1" and dt = "argv ! 2"
        and recursive = r and make_backup = b]
    unfolding tr by simp
  then show ?thesis
    unfolding main_result f tr using assms(1) by (simp split: option.splits)
qed

text \<open>
  Claim C4. The claim has three parts. In dry-run mode no file is created or modified
  and every candidate counts as succeeded: this the code does (\<open>dry_run_frame\<close>). The
  third part, exit code 0 whenever \<open>total > 0\<close>, holds when the loop ends
  (\<open>dry_run_exit_status\<close>) and fails when it does not: on the directory \<open>d\<close> with a
  subdirectory the recursive iterator cannot open, \<^verbatim>\<open>--recursive --dry-run\<close> reports
  both images (\<open>ok = total = 2\<close>, nothing touched), and then the iterator's
  \<^verbatim>\<open>filesystem_error\<close> leaves \<^verbatim>\<open>main\<close> uncaught: no exit code 0, the process ends in
  \<^verbatim>\<open>std::terminate\<close>.
\<close>

theorem dry_run_terminates_on_iterator_error:
  "\<not> usage_error sample_env_unreadable
       [''exif_batch_set'', ''d'', ''2026:02:25 18:30:00'', ''--recursive'', ''--dry-run'']
       sample_world \<and>
   fst (snd (traverse sample_env_unreadable ''d'' ''2026:02:25 18:30:00'' (True, True, True)
               sample_world)) = \<lparr>total = 2, ok = 2, skipped = 0\<rparr> \<and>
   console (snd (snd (traverse sample_env_unreadable ''d'' ''2026:02:25 18:30:00''
                        (True, True, True) sample_world))) =
     [Out_DRY ''d/a.jpg'', Out_DRY ''d/b.JPEG''] \<and>
   ops (snd (snd (traverse sample_env_unreadable ''d'' ''2026:02:25 18:30:00''
                    (True, True, True) sample_world))) = [] \<and>
   fst (main sample_env_unreadable
          [''exif_batch_set'', ''d'', ''2026:02:25 18:30:00'', ''--recursive'', ''--dry-run'']
          sample_world) =
     Inl (Std_exception ''cannot open directory: Permission denied [d/sub]'')"
proof -
  have v: "IsValidExifDateTime ''2026:02:25 18:30:00''"
    by (simp add: IsValidExifDateTime_def is_digit_def)
  have u: "\<not> usage_error sample_env_unreadable
       [''exif_batch_set'', ''d'', ''2026:02:25 18:30:00'', ''--recursive'', ''--dry-run'']
       sample_world"
    using v by (simp add: usage_error_def fs_is_directory_ec_def sample_world_def
        sample_env_unreadable_def sample_env_def known_option_def)
  have c: "fst (snd (traverse sample_env_unreadable ''d'' ''2026:02:25 18:30:00''
               (True, True, True) sample_world)) = \<lparr>total = 2, ok = 2, skipped = 0\<rparr>"
    by code_simp
  have l: "console (snd (snd (traverse sample_env_unreadable ''d'' ''2026:02:25 18:30:00''
                        (True, True, True) sample_world))) =
     [Out_DRY ''d/a.jpg'', Out_DRY ''d/b.JPEG'']"
    by code_simp
  have o: "ops (snd (snd (traverse sample_env_unreadable ''d'' ''2026:02:25 18:30:00''
                    (True, True, True) sample_world))) = []"
    by code_simp
  have m: "fst (main sample_env_unreadable
          [''exif_batch_set'', ''d'', ''2026:02:25 18:30:00'', ''--recursive'', ''--dry-run'']
          sample_world) =
     Inl (Std_exception ''cannot open directory: Permission denied [d/sub]'')"
    by code_simp
  show ?thesis using u c l o m by (intro conjI)
qed

theorem dry_run_terminates_on_iterator_error_witness:
  "0 < total (fst (snd (traverse sample_env_unreadable ''d'' ''2026:02:25 18:30:00''
                          (True, True, True) sample_world))) \<and>
   fst (main sample_env_unreadable
          [''exif_batch_set'', ''d'', ''2026:02:25 18:30:00'', ''--recursive'', ''--dry-run'']
          sample_world) \<noteq> Inr 0"
  using dry_run_terminates_on_iterator_error by simp

section \<open>The backup step\<close>

lemma UpdateExifInPlace_backup_regular:
  assumes "files w file = Some (Regular bytes)" "bytes \<noteq> []"
    and "status_error e (backup_path_of file) = None" "files w (backup_path_of file) = None"
    and "can_open_source e file" "can_open_destination e (backup_path_of file)"
  shows "fst (UpdateExifInPlace_backup e file w) = Inr None \<and>
         files (snd (UpdateExifInPlace_backup e file w)) =
           (files w)(backup_path_of file \<mapsto>
              Regular (case write_capacity e (backup_path_of file) of
                         None \<Rightarrow> bytes | Some n \<Rightarrow> take n bytes))"
proof -
  let ?bp = "backup_path_of file"
  have c: "CopyFileBinary e file ?bp (log_op (Op_exists ?bp) w) =
             (Inr (),
              store ?bp (case write_capacity e ?bp of None \<Rightarrow> bytes | Some n \<Rightarrow> take n bytes)
                (log_op (Op_write_backup ?bp)
                   (store ?bp [] (log_op (Op_open_destination ?bp)
                      (log_op (Op_open_source file) (log_op (Op_exists ?bp) w))))))"
    using assms
    by (subst CopyFileBinary_regular_source [where bytes = bytes]) simp_all
  show ?thesis
    unfolding UpdateExifInPlace_backup_absent [OF assms(3) assms(4)] c
    using assms(4) by (simp add: files_store)
qed

text \<open>
  Claim C7. The claim wants the backup byte-identical whenever the backup step succeeds,
  and the step to fail on any write failure. \<^verbatim>\<open>CopyFileBinary\<close> attempts this with its
  test of \<^verbatim>\<open>out.good()\<close>, but it tests before the stream has written anything: for a
  non-empty regular file the step passes whatever the device accepts afterwards
  (\<open>UpdateExifInPlace_backup_regular\<close>). On \<open>d/a.jpg\<close> holding the three bytes \<open>AAA\<close>,
  with a device that accepts one byte, the step passes, \<open>d/a.jpg.bak\<close> is left with the
  single byte \<open>A\<close>, \<^verbatim>\<open>UpdateExifInPlace\<close> goes on to rewrite the file and returns
  \<^verbatim>\<open>true\<close>: the original bytes are lost. With a device that accepts nothing the backup
  is left empty in the same way.
\<close>

theorem backup_passes_on_short_write:
  "files sample_world ''d/a.jpg'' = Some (Regular ''AAA'') \<and>
   files sample_world ''d/a.jpg.bak'' = None \<and>
   fst (UpdateExifInPlace_backup sample_env_full ''d/a.jpg'' sample_world) = Inr None \<and>
   files (snd (UpdateExifInPlace_backup sample_env_full ''d/a.jpg'' sample_world))
     ''d/a.jpg.bak'' = Some (Regular ''A'') \<and>
   fst (UpdateExifInPlace sample_env_full ''d/a.jpg'' ''2026:02:25 18:30:00'' False True
          sample_world) = True \<and>
   console (snd (UpdateExifInPlace sample_env_full ''d/a.jpg'' ''2026:02:25 18:30:00'' False
                   True sample_world)) = [Out_OK ''d/a.jpg''] \<and>
   files (snd (UpdateExifInPlace sample_env_full ''d/a.jpg'' ''2026:02:25 18:30:00'' False True
                 sample_world)) ''d/a.jpg.bak'' = Some (Regular ''A'') \<and>
   files (snd (UpdateExifInPlace sample_env_full ''d/a.jpg'' ''2026:02:25 18:30:00'' False True
                 sample_world)) ''d/a.jpg'' = Some (Regular ''AAA2026:02:25 18:30:00'') \<and>
   files (snd (UpdateExifInPlace (sample_env\<lparr>write_capacity := \<lambda>p. Some 0\<rparr>) ''d/a.jpg''
                 ''2026:02:25 18:30:00'' False True sample_world)) ''d/a.jpg.bak'' =
     Some (Regular [])  \<and>
   fst (UpdateExifInPlace (sample_env\<lparr>write_capacity := \<lambda>p. Some 0\<rparr>) ''d/a.jpg''
          ''2026:02:25 18:30:00'' False True sample_world) = True"
  by (intro conjI; code_simp)

theorem backup_passes_on_short_write_witness:
  "fst (UpdateExifInPlace sample_env_full ''d/a.jpg'' ''2026:02:25 18:30:00'' False True
          sample_world) \<and>
   files (snd (UpdateExifInPlace sample_env_full ''d/a.jpg'' ''2026:02:25 18:30:00'' False True
                 sample_world)) ''d/a.jpg.bak'' \<noteq> files sample_world ''d/a.jpg''"
  using backup_passes_on_short_write by simp

section \<open>The counts of a non-recursive run\<close>

text \<open>
  Claim C6, as stated, fails. \<open>d\<close> holds two regular files that match the filter and
  one that does not (\<open>N = 2\<close>, \<open>M = 1\<close>). The run writes \<open>d/a.jpg.bak\<close> into the
  directory it is enumerating; here the iterator comes to that path after the file is
  there and yields it, and \<^verbatim>\<open>process_entry\<close> counts it as skipped: the run ends with
  \<open>total = 2\<close> and \<open>skipped = 2\<close>, not 1.
\<close>

theorem nonrecursive_skipped_counts_backups:
  "length (filter (\<lambda>p. is_candidate (entry_at sample_world p))
             (listed_paths (directory_iterator sample_env_live ''d''))) = 2 \<and>
   length (filter (\<lambda>p. is_type_skipped (entry_at sample_world p))
             (listed_paths (directory_iterator sample_env_live ''d''))) = 1 \<and>
   fst (traverse sample_env_live ''d'' ''2026:02:25 18:30:00'' (False, False, True)
          sample_world) = None \<and>
   fst (snd (traverse sample_env_live ''d'' ''2026:02:25 18:30:00'' (False, False, True)
               sample_world)) = \<lparr>total = 2, ok = 2, skipped = 2\<rparr> \<and>
   skipped (fst (snd (traverse sample_env_live ''d'' ''2026:02:25 18:30:00''
                        (False, False, True) sample_world))) \<noteq>
     length (filter (\<lambda>p. is_type_skipped (entry_at sample_world p))
               (listed_paths (directory_iterator sample_env_live ''d'')))"
  by (intro conjI; code_simp)

text \<open>
  Claim C6, amended. For every non-recursive run whose traversal completes, on a
  directory that holds, when the run starts, \<open>N\<close> regular files whose extension is
  \<^verbatim>\<open>.jpg\<close> or \<^verbatim>\<open>.jpeg\<close> in any letter case and \<open>M\<close> regular files whose extension
  is not (the files of the directory being the paths the iterator comes to that hold a
  regular file in the world the run starts from): the run ends with \<open>total = N\<close>, and
  with \<open>skipped\<close> equal to \<open>M\<close> plus the number of traversed entries that were not
  there when the run started. Each of those is
  the backup, created by this run, of a path that passes the filter; there is none in
  dry-run mode or without backups, and then \<open>skipped = M\<close>. Neither count mentions the
  files' bytes or the codec. An entry that is not a candidate leaves the world
  untouched, and the world after the run is the world after processing the candidates
  alone: non-matching files reach neither backup nor mutation.
\<close>

theorem nonrecursive_counts:
  assumes "fst (traverse e folder dt (False, dry_run, make_backup) w) = None"
  shows "is_candidate entry =
           (is_regular_file entry \<and>
            (matches_ignoring_case (extension (entry_path entry)) ''.jpg'' \<or>
             matches_ignoring_case (extension (entry_path entry)) ''.jpeg'')) \<and>
         is_type_skipped entry =
           (is_regular_file entry \<and>
            \<not> (matches_ignoring_case (extension (entry_path entry)) ''.jpg'' \<or>
               matches_ignoring_case (extension (entry_path entry)) ''.jpeg'')) \<and>
         total (fst (snd (traverse e folder dt (False, dry_run, make_backup) w))) =
           length (filter (\<lambda>p. is_candidate (entry_at w p))
                     (listed_paths (directory_iterator e folder))) \<and>
         skipped (fst (snd (traverse e folder dt (False, dry_run, make_backup) w))) =
           length (filter (\<lambda>p. is_type_skipped (entry_at w p))
                     (listed_paths (directory_iterator e folder))) +
           length (filter (\<lambda>entry. files w (entry_path entry) = None)
                     (traversed e folder dt (False, dry_run, make_backup) w)) \<and>
         list_all (\<lambda>entry. files w (entry_path entry) = None \<longrightarrow>
                            (\<exists>q. IsJpegPath q \<and> entry_path entry = backup_path_of q))
           (traversed e folder dt (False, dry_run, make_backup) w) \<and>
         (dry_run \<or> \<not> make_backup \<longrightarrow>
            skipped (fst (snd (traverse e folder dt (False, dry_run, make_backup) w))) =
              length (filter (\<lambda>p. is_type_skipped (entry_at w p))
                        (listed_paths (directory_iterator e folder)))) \<and>
         (\<not> is_candidate entry \<longrightarrow>
            snd (process_entry e dt dry_run make_backup entry (c, w0)) = w0) \<and>
         snd (snd (traverse e folder dt (False, dry_run, make_backup) w)) =
           snd (process_entries e dt dry_run make_backup
                  (filter is_candidate (traversed e folder dt (False, dry_run, make_backup) w))
                  (\<lparr>total = 0, ok = 0, skipped = 0\<rparr>, w))"
proof -
  let ?z = "\<lparr>total = 0, ok = 0, skipped = 0\<rparr>"
  let ?steps = "directory_iterator e folder"
  let ?tr = "traversed_entries e dt dry_run make_backup ?steps (?z, w)"
  obtain c' w' where r: "for_each_entry e dt dry_run make_backup ?steps (?z, w) = (None, c', w')"
    using assms
    by (cases "for_each_entry e dt dry_run make_backup ?steps (?z, w)") (simp add: traverse_eq)
  have t: "traverse e folder dt (False, dry_run, make_backup) w = (None, c', w')"
    by (simp add: traverse_eq r)
  have tr: "traversed e folder dt (False, dry_run, make_backup) w = ?tr"
    by (simp add: traversed_eq)
  have one: "is_candidate entry =
     (is_regular_file entry \<and>
      (matches_ignoring_case (extension (entry_path entry)) ''.jpg'' \<or>
       matches_ignoring_case (extension (entry_path entry)) ''.jpeg''))"
    by (simp only: is_candidate_def IsJpegPath_iff)
  have two: "is_type_skipped entry =
     (is_regular_file entry \<and>
      \<not> (matches_ignoring_case (extension (entry_path entry)) ''.jpg'' \<or>
         matches_ignoring_case (extension (entry_path entry)) ''.jpeg''))"
    by (simp only: is_type_skipped_def IsJpegPath_iff)
  have counts: "total c' =
           length (filter (\<lambda>p. is_candidate (entry_at w p)) (listed_paths ?steps)) \<and>
         skipped c' =
           length (filter (\<lambda>p. is_type_skipped (entry_at w p)) (listed_paths ?steps)) +
           length (filter (\<lambda>entry. files w (entry_path entry) = None) ?tr)"
    using for_each_entry_counts [OF r grown_from_refl]
    by (simp add: is_candidate_entry_at is_type_skipped_entry_at)
  have new: "list_all (\<lambda>entry. files w (entry_path entry) = None \<longrightarrow>
                            (\<exists>q. IsJpegPath q \<and> entry_path entry = backup_path_of q)) ?tr"
    by (rule traversed_entries_new_paths [OF grown_from_refl])
  have none: "filter (\<lambda>entry. files w (entry_path entry) = None) ?tr = []"
    if "dry_run \<or> \<not> make_backup"
    by (rule traversed_entries_old_paths [OF that]) simp
  have seven: "snd (process_entry e dt dry_run make_backup entry (c, w0)) = w0"
    if "\<not> is_candidate entry"
    using that by (simp add: process_entry_world)
  have eight: "snd (snd (traverse e folder dt (False, dry_run, make_backup) w)) =
           snd (process_entries e dt dry_run make_backup (filter is_candidate ?tr) (?z, w))"
    unfolding traverse_process_entries tr
    by (rule process_entries_world_filter)
  show ?thesis
    unfolding tr t using one two counts new none seven eight [unfolded tr t]
    by simp
qed

theorem nonrecursive_counts_witness:
  "fst (traverse sample_env_live ''d'' ''2026:02:25 18:30:00'' (False, False, True)
          sample_world) = None \<and>
   total (fst (snd (traverse sample_env_live ''d'' ''2026:02:25 18:30:00''
                      (False, False, True) sample_world))) = 2 \<and>
   skipped (fst (snd (traverse sample_env_live ''d'' ''2026:02:25 18:30:00''
                        (False, False, True) sample_world))) = 1 + 1 \<and>
   fst (traverse sample_env_live ''d'' ''2026:02:25 18:30:00'' (False, False, False)
          sample_world) = None \<and>
   skipped (fst (snd (traverse sample_env_live ''d'' ''2026:02:25 18:30:00''
                        (False, False, False) sample_world))) = 1 \<and>
   snd (process_entry sample_env_live ''2026:02:25 18:30:00'' False True
          \<lparr>entry_path = ''d/notes.txt'', is_regular_file = True\<rparr>
          (\<lparr>total = 1, ok = 1, skipped = 0\<rparr>, sample_world)) = sample_world"
proof -
  let ?dt = "''2026:02:25 18:30:00''"
  let ?entry = "\<lparr>entry_path = ''d/notes.txt'', is_regular_file = True\<rparr>"
  have h1: "fst (traverse sample_env_live ''d'' ?dt (False, False, True) sample_world) = None"
    by code_simp
  have h2: "fst (traverse sample_env_live ''d'' ?dt (False, False, False) sample_world) = None"
    by code_simp
  have n: "length (filter (\<lambda>p. is_candidate (entry_at sample_world p))
             (listed_paths (directory_iterator sample_env_live ''d''))) = 2"
    by code_simp
  have m: "length (filter (\<lambda>p. is_type_skipped (entry_at sample_world p))
             (listed_paths (directory_iterator sample_env_live ''d''))) = 1"
    by code_simp
  have k: "length (filter (\<lambda>entry. files sample_world (entry_path entry) = None)
             (traversed sample_env_live ''d'' ?dt (False, False, True) sample_world)) = 1"
    by code_simp
  have nc: "\<not> is_candidate ?entry"
    by code_simp
  note with_backup = nonrecursive_counts
      [OF h1, of ?entry "\<lparr>total = 1, ok = 1, skipped = 0\<rparr>" sample_world]
  note no_backup = nonrecursive_counts
      [OF h2, of ?entry "\<lparr>total = 1, ok = 1, skipped = 0\<rparr>" sample_world]
  have a: "total (fst (snd (traverse sample_env_live ''d'' ?dt (False, False, True)
                              sample_world))) = 2"
    using with_backup n by simp
  have b: "skipped (fst (snd (traverse sample_env_live ''d'' ?dt (False, False, True)
                                sample_world))) = 1 + 1"
    using with_backup m k by simp
  have c: "skipped (fst (snd (traverse sample_env_live ''d'' ?dt (False, False, False)
                                sample_world))) = 1"
    using no_backup [THEN conjunct2, THEN conjunct2, THEN conjunct2, THEN conjunct2,
                     THEN conjunct2, THEN conjunct1] m
    by simp
  have d: "snd (process_entry sample_env_live ?dt False True ?entry
                  (\<lparr>total = 1, ok = 1, skipped = 0\<rparr>, sample_world)) = sample_world"
    using with_backup nc by blast
  show ?thesis using h1 h2 a b c d by (intro conjI)
qed

end
